theory Spec2Isabelle
  imports Complex_Main "HOL-Library.List_Lexorder" "HOL-Library.Char_ord"
begin

section \<open>Data model: the tables of the booking database\<close>

text \<open>
  The route handlers of \<^verbatim>\<open>src/routes/bookings.js\<close> and \<^verbatim>\<open>src/routes/playgrounds.js\<close>
  keep no state of their own: every handler is a sequence of SQL statements on the tables
  \<^verbatim>\<open>bookings\<close>, \<^verbatim>\<open>playgrounds\<close> and \<^verbatim>\<open>playground_reports\<close>. A table is a list of rows
  in insertion order, a row is a record with one field per column the handlers touch, and
  a handler is a function from the database (and the request) to an error or the updated
  database; where a handler can fail after a write, the error comes with the database
  that it has left.

  \<^item> \<^verbatim>\<open>int\<close> columns are \<open>int\<close>; a nullable column is an \<open>option\<close>.
  \<^item> \<^verbatim>\<open>bookings.date\<close> is a calendar day, modelled by its day number.
  \<^item> \<^verbatim>\<open>timeStart\<close> and \<^verbatim>\<open>timeEnd\<close> are \<^verbatim>\<open>varchar(5)\<close> values that the conflict
    query compares with \<^verbatim>\<open><\<close>, \<^verbatim>\<open>>\<close>, \<^verbatim>\<open><=\<close>, \<^verbatim>\<open>>=\<close>. The model takes any
    linearly ordered type \<open>'t\<close> for them; the examples use \<open>HH:MM\<close> strings in
    lexicographic order.
  \<^item> \<^verbatim>\<open>bookings.rating\<close> is a 32-bit \<^verbatim>\<open>int\<close> and \<^verbatim>\<open>playgrounds.rating\<close> a
    \<^verbatim>\<open>decimal(3,1)\<close>: a value written to them is converted by the store, which rounds
    it and, when it is out of range, rejects the statement (strict SQL mode, the default
    of the server) or clips the value. The mode is a setting of the server, outside the
    repository, so it is a field of the database and every statement holds for both.
  \<^item> Ids, dates and report counts are taken to be in the range of their \<^verbatim>\<open>int\<close> and
    \<^verbatim>\<open>date\<close> columns, and times to fit \<^verbatim>\<open>varchar(5)\<close>.
  \<^item> The id of a row is the primary key of its table. The queries below are written for
    any list of rows.
\<close>

datatype status = Pending | Confirmed | Cancelled

record 't booking =
  b_id :: int
  b_playgroundId :: int
  b_userId :: int
  b_date :: int
  b_timeStart :: 't
  b_timeEnd :: 't
  b_status :: status
  b_rated :: bool
  b_rating :: "int option"

text \<open>
  The columns of \<^verbatim>\<open>CREATE TABLE playgrounds\<close> that the handlers read or write. The
  table has no column for an active flag: the report route names a column
  \<^verbatim>\<open>isActive\<close>, which the schema of the repository does not declare.
\<close>

record playground =
  p_id :: int
  p_userId :: "int option"
  p_reports :: int
  p_rating :: rat

record report =
  r_playgroundId :: int
  r_userId :: int
  r_reason :: string

record 't db =
  playgrounds :: "playground list"
  bookings :: "'t booking list"
  playground_reports :: "report list"
  bookings_auto_increment :: int
  sql_strict :: bool

text \<open>
  The responses of the handlers that are not a success, named by the error kind they
  stand for:
  \<^item> \<open>ValidationError\<close>: 400, missing required fields;
  \<^item> \<open>SelfBookingNotAllowed\<close>: 400, the caller owns the playground;
  \<^item> \<open>SlotConflict\<close>: 400, the time slot is already booked;
  \<^item> \<open>NotFound\<close>: 404, booking not found;
  \<^item> \<open>InvalidState\<close>: 400, only pending bookings can be cancelled;
  \<^item> \<open>Unauthorized\<close>: 403;
  \<^item> \<open>DuplicateReport\<close>: 400, the caller has already reported the playground;
  \<^item> \<open>StorageError\<close>: 500, a statement failed and the \<^verbatim>\<open>catch\<close> block answered.
\<close>

datatype error =
  ValidationError | SelfBookingNotAllowed | SlotConflict | NotFound
  | InvalidState | Unauthorized | DuplicateReport | StorageError

section \<open>Storing a value in a column\<close>

text \<open>
  A value for an \<^verbatim>\<open>int\<close> column: kept when it is a 32-bit signed integer; otherwise
  the statement is rejected in strict mode and the value clipped to the nearest bound
  when the mode is off.
\<close>

definition store_int :: "bool \<Rightarrow> int \<Rightarrow> error + int" where
  "store_int strict n =
     (if - 2147483648 \<le> n \<and> n \<le> 2147483647 then Inr n
      else if strict then Inl StorageError
      else Inr (if n < 0 then - 2147483648 else 2147483647))"

text \<open>
  Rounding of exact values, half away from zero, to an integer and to \<open>d\<close> fractional
  digits.
\<close>

definition round_half_away :: "rat \<Rightarrow> int" where
  "round_half_away x = (if 0 \<le> x then \<lfloor>x + 1 / 2\<rfloor> else - \<lfloor>- x + 1 / 2\<rfloor>)"

definition decimal_round :: "nat \<Rightarrow> rat \<Rightarrow> rat" where
  "decimal_round d x = of_int (round_half_away (x * 10 ^ d)) / 10 ^ d"

text \<open>
  A value for a \<^verbatim>\<open>decimal(3,1)\<close> column: rounded to one fractional digit, and kept when
  the result lies between -99.9 and 99.9; otherwise rejected in strict mode and clipped
  when the mode is off.
\<close>

definition store_decimal_3_1 :: "bool \<Rightarrow> rat \<Rightarrow> error + rat" where
  "store_decimal_3_1 strict x =
     (let y = decimal_round 1 x
      in if - (999 / 10) \<le> y \<and> y \<le> 999 / 10 then Inr y
         else if strict then Inl StorageError
         else Inr (if y < 0 then - (999 / 10) else 999 / 10))"

section \<open>The interval tests\<close>

text \<open>
  The \<^verbatim>\<open>AND (...)\<close> part of the conflict query of \<^verbatim>\<open>POST /api/bookings\<close>, with the
  six placeholders bound to
  \<^verbatim>\<open>timeEnd, timeStart, timeEnd, timeEnd, timeStart, timeEnd\<close> of the request, in
  this order. The columns are those of the existing row \<open>b\<close>.
\<close>

definition slot_taken :: "('t::linorder) booking \<Rightarrow> 't \<Rightarrow> 't \<Rightarrow> bool" where
  "slot_taken b timeStart timeEnd \<longleftrightarrow>
     (b_timeStart b < timeEnd \<and> b_timeEnd b > timeStart) \<or>
     (b_timeStart b < timeEnd \<and> b_timeEnd b > timeEnd) \<or>
     (b_timeStart b \<ge> timeStart \<and> b_timeEnd b \<le> timeEnd)"

text \<open>
  The predicate \<open>overlaps(a, b)\<close> in the words of the specification, on intervals given
  as pairs (start, end): true iff \<open>a.start < b.end AND b.start < a.end\<close>.
\<close>

definition spec_overlaps :: "('t::linorder) \<times> 't \<Rightarrow> 't \<times> 't \<Rightarrow> bool" where
  "spec_overlaps a b \<longleftrightarrow> fst a < snd b \<and> fst b < snd a"

section \<open>The booking routes\<close>

text \<open>
  \<^verbatim>\<open>!x\<close> on the \<^verbatim>\<open>playgroundId\<close> of the request body: true when the field is absent or
  null (\<open>None\<close>) and when it is the number 0. For the three string fields \<open>None\<close> stands
  for an absent, null or empty value, which are the values \<^verbatim>\<open>!x\<close> rejects.
\<close>

definition falsy_num :: "int option \<Rightarrow> bool" where
  "falsy_num x = (case x of None \<Rightarrow> True | Some n \<Rightarrow> n = 0)"

text \<open>\<^verbatim>\<open>SELECT ... FROM playgrounds WHERE id = ?\<close>\<close>

definition select_playground :: "'t db \<Rightarrow> int \<Rightarrow> playground list" where
  "select_playground s playgroundId = filter (\<lambda>p. p_id p = playgroundId) (playgrounds s)"

text \<open>
  The conflict query: the rows of \<^verbatim>\<open>bookings\<close> with the playground and the date of the
  request, a status other than \<^verbatim>\<open>'cancelled'\<close>, and a slot that the three clauses match.
\<close>

definition existing_bookings :: "('t::linorder) db \<Rightarrow> int \<Rightarrow> int \<Rightarrow> 't \<Rightarrow> 't \<Rightarrow> 't booking list" where
  "existing_bookings s playgroundId date timeStart timeEnd =
     filter (\<lambda>b. b_playgroundId b = playgroundId \<and> b_date b = date \<and> b_status b \<noteq> Cancelled
                 \<and> slot_taken b timeStart timeEnd) (bookings s)"

text \<open>
  The row that \<^verbatim>\<open>INSERT INTO bookings (playgroundId, userId, date, timeStart, timeEnd)\<close>
  adds: the id is the table's auto-increment value, and the columns the statement does
  not name take their defaults (\<^verbatim>\<open>status 'pending'\<close>, \<^verbatim>\<open>rated 0\<close>, \<^verbatim>\<open>rating NULL\<close>).
\<close>

definition new_booking :: "'t db \<Rightarrow> int \<Rightarrow> int \<Rightarrow> int \<Rightarrow> 't \<Rightarrow> 't \<Rightarrow> 't booking" where
  "new_booking s playgroundId userId date timeStart timeEnd =
     \<lparr>b_id = bookings_auto_increment s, b_playgroundId = playgroundId, b_userId = userId,
      b_date = date, b_timeStart = timeStart, b_timeEnd = timeEnd,
      b_status = Pending, b_rated = False, b_rating = None\<rparr>"

text \<open>
  \<^verbatim>\<open>POST /api/bookings\<close> for the authenticated caller \<open>userId\<close>. The checks come in the
  order of the source: missing fields, the caller owning the playground, the conflict
  query. The insert then fails on the foreign key \<^verbatim>\<open>bookings_ibfk_1\<close> when no playground
  has the id, and the \<^verbatim>\<open>catch\<close> block answers 500. The caller's own foreign key
  \<^verbatim>\<open>bookings_ibfk_2\<close> holds for every caller: tokens are issued for rows of \<^verbatim>\<open>users\<close>
  only and no route deletes a user. On success the handler answers 201 with the
  booking, status \<^verbatim>\<open>'pending'\<close>.
\<close>

definition bookings_post ::
  "('t::linorder) db \<Rightarrow> int \<Rightarrow> int option \<Rightarrow> int option \<Rightarrow> 't option \<Rightarrow> 't option
     \<Rightarrow> error + ('t booking \<times> 't db)" where
  "bookings_post s userId playgroundId date timeStart timeEnd =
     (if falsy_num playgroundId \<or> date = None \<or> timeStart = None \<or> timeEnd = None
      then Inl ValidationError
      else
        let pg = the playgroundId; d = the date; ts = the timeStart; te = the timeEnd;
            playground = select_playground s pg
        in if (case playground of [] \<Rightarrow> False | p # _ \<Rightarrow> p_userId p = Some userId)
           then Inl SelfBookingNotAllowed
           else if existing_bookings s pg d ts te \<noteq> [] then Inl SlotConflict
           else if playground = [] then Inl StorageError
           else
             let b = new_booking s pg userId d ts te
             in Inr (b, s\<lparr>bookings := bookings s @ [b],
                          bookings_auto_increment := bookings_auto_increment s + 1\<rparr>))"

text \<open>\<^verbatim>\<open>UPDATE bookings SET status = ? WHERE id = ?\<close>\<close>

definition update_status :: "'t db \<Rightarrow> int \<Rightarrow> status \<Rightarrow> 't db" where
  "update_status s bookingId st =
     s\<lparr>bookings := map (\<lambda>b. if b_id b = bookingId then b\<lparr>b_status := st\<rparr> else b) (bookings s)\<rparr>"

text \<open>
  \<^verbatim>\<open>PATCH /api/bookings/:id/cancel\<close>: one query selects the rows with the id and the
  caller as \<^verbatim>\<open>userId\<close>; no row answers 404, a first row that is not pending answers 400.
\<close>

definition bookings_patch_cancel :: "'t db \<Rightarrow> int \<Rightarrow> int \<Rightarrow> error + 't db" where
  "bookings_patch_cancel s userId bookingId =
     (case filter (\<lambda>b. b_id b = bookingId \<and> b_userId b = userId) (bookings s) of
        [] \<Rightarrow> Inl NotFound
      | b # _ \<Rightarrow>
          if b_status b \<noteq> Pending then Inl InvalidState
          else Inr (update_status s bookingId Cancelled))"

text \<open>
  The join of \<^verbatim>\<open>PATCH /api/bookings/:id/confirm\<close>: the rows of \<^verbatim>\<open>bookings\<close> with the id,
  each with the \<^verbatim>\<open>userId\<close> of its playground as \<^verbatim>\<open>ownerId\<close>.
\<close>

definition select_with_owner :: "'t db \<Rightarrow> int \<Rightarrow> ('t booking \<times> int option) list" where
  "select_with_owner s bookingId =
     concat (map (\<lambda>b. map (\<lambda>p. (b, p_userId p)) (select_playground s (b_playgroundId b)))
                 (filter (\<lambda>b. b_id b = bookingId) (bookings s)))"

text \<open>
  \<^verbatim>\<open>PATCH /api/bookings/:id/confirm\<close>: an empty join and an \<^verbatim>\<open>ownerId\<close> other than the
  caller give the same answer, 403. The update has no condition on the status.
\<close>

definition bookings_patch_confirm :: "'t db \<Rightarrow> int \<Rightarrow> int \<Rightarrow> error + 't db" where
  "bookings_patch_confirm s userId bookingId =
     (case select_with_owner s bookingId of
        [] \<Rightarrow> Inl Unauthorized
      | (b, ownerId) # _ \<Rightarrow>
          if ownerId \<noteq> Some userId then Inl Unauthorized
          else Inr (update_status s bookingId Confirmed))"

section \<open>Ratings\<close>

text \<open>
  The rows of \<^verbatim>\<open>bookings\<close> after \<^verbatim>\<open>SET rated = TRUE, rating = v WHERE id = ?\<close>, for a
  value \<open>v\<close> that the column holds; a null rating is \<open>None\<close>.
\<close>

definition write_booking_rating :: "'t db \<Rightarrow> int option \<Rightarrow> int \<Rightarrow> 't db" where
  "write_booking_rating s v bookingId =
     s\<lparr>bookings := map (\<lambda>b. if b_id b = bookingId then b\<lparr>b_rated := True, b_rating := v\<rparr> else b)
                        (bookings s)\<rparr>"

text \<open>
  \<^verbatim>\<open>UPDATE bookings SET rated = TRUE, rating = ? WHERE id = ?\<close>. The rating of the request
  is converted for the \<^verbatim>\<open>int\<close> column when it is stored in a row: a rating that the
  column rejects fails the statement if a row has the id, and changes nothing, without
  an error, if none has.
\<close>

definition update_booking_rating :: "'t db \<Rightarrow> int option \<Rightarrow> int \<Rightarrow> error + 't db" where
  "update_booking_rating s rating bookingId =
     (case rating of
        None \<Rightarrow> Inr (write_booking_rating s None bookingId)
      | Some r \<Rightarrow>
          (case store_int (sql_strict s) r of
             Inr v \<Rightarrow> Inr (write_booking_rating s (Some v) bookingId)
           | Inl e \<Rightarrow>
               if filter (\<lambda>b. b_id b = bookingId) (bookings s) = [] then Inr s else Inl e))"

text \<open>
  The ratings that
  \<^verbatim>\<open>SELECT AVG(rating) ... WHERE playgroundId = ? AND rated = TRUE AND rating IS NOT NULL\<close>
  averages.
\<close>

definition rated_ratings :: "'t db \<Rightarrow> int \<Rightarrow> int list" where
  "rated_ratings s playgroundId =
     map (\<lambda>b. the (b_rating b))
       (filter (\<lambda>b. b_playgroundId b = playgroundId \<and> b_rated b \<and> b_rating b \<noteq> None) (bookings s))"

text \<open>
  \<^verbatim>\<open>AVG\<close> over an \<^verbatim>\<open>int\<close> column: \<^verbatim>\<open>NULL\<close> over no rows, and otherwise the arithmetic
  mean as a decimal with four fractional digits.
\<close>

definition sql_avg :: "int list \<Rightarrow> rat option" where
  "sql_avg rs =
     (if rs = [] then None
      else Some (decimal_round 4 (of_int (sum_list rs) / of_int (int (length rs)))))"

text \<open>\<^verbatim>\<open>ratingResult[0].avgRating || 0\<close>\<close>

definition avgRating :: "'t db \<Rightarrow> int \<Rightarrow> rat" where
  "avgRating s playgroundId = (case sql_avg (rated_ratings s playgroundId) of None \<Rightarrow> 0 | Some a \<Rightarrow> a)"

text \<open>The rows of \<^verbatim>\<open>playgrounds\<close> after \<^verbatim>\<open>SET rating = y WHERE id = ?\<close>.\<close>

definition write_playground_rating :: "'t db \<Rightarrow> rat \<Rightarrow> int \<Rightarrow> 't db" where
  "write_playground_rating s y playgroundId =
     s\<lparr>playgrounds := map (\<lambda>p. if p_id p = playgroundId then p\<lparr>p_rating := y\<rparr> else p) (playgrounds s)\<rparr>"

text \<open>
  \<^verbatim>\<open>UPDATE playgrounds SET rating = ? WHERE id = ?\<close>: the value is converted for the
  \<^verbatim>\<open>decimal(3,1)\<close> column when it is stored in a row, as above.
\<close>

definition update_playground_rating :: "'t db \<Rightarrow> rat \<Rightarrow> int \<Rightarrow> error + 't db" where
  "update_playground_rating s x playgroundId =
     (case store_decimal_3_1 (sql_strict s) x of
        Inr y \<Rightarrow> Inr (write_playground_rating s y playgroundId)
      | Inl e \<Rightarrow> if select_playground s playgroundId = [] then Inr s else Inl e)"

text \<open>
  The answer of a handler whose statements can fail after a write: the error together
  with the database that the statements before it have left (no handler uses a
  transaction), or the database of the success.
\<close>

definition db_after :: "(error \<times> 't db) + 't db \<Rightarrow> 't db" where
  "db_after r = (case r of Inl (_, s) \<Rightarrow> s | Inr s \<Rightarrow> s)"

text \<open>
  \<^verbatim>\<open>PATCH /api/bookings/:id/rating\<close> with the body \<^verbatim>\<open>{rating, bookingId}\<close>: the booking
  of the body is updated first, then the average of the playground of the URL is
  computed and stored. Neither the caller nor the rating is checked. A statement that
  the store rejects throws, and the \<^verbatim>\<open>catch\<close> block answers 500.
\<close>

definition bookings_patch_rating ::
  "'t db \<Rightarrow> int \<Rightarrow> int option \<Rightarrow> int \<Rightarrow> (error \<times> 't db) + 't db" where
  "bookings_patch_rating s urlId rating bookingId =
     (case update_booking_rating s rating bookingId of
        Inl e \<Rightarrow> Inl (e, s)
      | Inr s1 \<Rightarrow>
          (case update_playground_rating s1 (avgRating s1 urlId) urlId of
             Inl e \<Rightarrow> Inl (e, s1)
           | Inr s2 \<Rightarrow> Inr s2))"

text \<open>
  \<^verbatim>\<open>PATCH /api/playgrounds/:id/rating\<close> with the same body: the average is computed and
  stored first, the booking is updated last.
\<close>

definition playgrounds_patch_rating ::
  "'t db \<Rightarrow> int \<Rightarrow> int option \<Rightarrow> int \<Rightarrow> (error \<times> 't db) + 't db" where
  "playgrounds_patch_rating s urlId rating bookingId =
     (case update_playground_rating s (avgRating s urlId) urlId of
        Inl e \<Rightarrow> Inl (e, s)
      | Inr s1 \<Rightarrow>
          (case update_booking_rating s1 rating bookingId of
             Inl e \<Rightarrow> Inl (e, s1)
           | Inr s2 \<Rightarrow> Inr s2))"

section \<open>Reports\<close>

text \<open>
  \<^verbatim>\<open>UPDATE playgrounds SET isActive = FALSE WHERE id = ?\<close>. The table \<^verbatim>\<open>playgrounds\<close> has
  no column \<^verbatim>\<open>isActive\<close>, so the store rejects the statement whatever the id and the
  rows, and writes nothing.
\<close>

definition update_isActive :: "'t db \<Rightarrow> int \<Rightarrow> error + 't db" where
  "update_isActive s playgroundId = Inl StorageError"

text \<open>
  \<^verbatim>\<open>POST /api/playgrounds/:id/report\<close>: the duplicate check, the insert of the report
  (which fails on the foreign key \<^verbatim>\<open>playground_reports_ibfk_1\<close> when no playground has
  the id), the increment of \<^verbatim>\<open>reports\<close>, the read of the new count and the update of
  \<^verbatim>\<open>isActive\<close> when the count read is at least 5. Reading \<^verbatim>\<open>playground[0]\<close> of an empty
  result throws. Every statement that fails is answered 500 by the \<^verbatim>\<open>catch\<close> block,
  and what the statements before it have written stays.
\<close>

definition playgrounds_post_report ::
  "'t db \<Rightarrow> int \<Rightarrow> int \<Rightarrow> string \<Rightarrow> (error \<times> 't db) + 't db" where
  "playgrounds_post_report s userId playgroundId reason =
     (if filter (\<lambda>r. r_playgroundId r = playgroundId \<and> r_userId r = userId) (playground_reports s) \<noteq> []
      then Inl (DuplicateReport, s)
      else if select_playground s playgroundId = [] then Inl (StorageError, s)
      else
        let s1 = s\<lparr>playground_reports := playground_reports s @
                     [\<lparr>r_playgroundId = playgroundId, r_userId = userId, r_reason = reason\<rparr>]\<rparr>;
            s2 = s1\<lparr>playgrounds :=
                     map (\<lambda>p. if p_id p = playgroundId then p\<lparr>p_reports := p_reports p + 1\<rparr> else p)
                         (playgrounds s1)\<rparr>
        in case select_playground s2 playgroundId of
             [] \<Rightarrow> Inl (StorageError, s2)
           | p # _ \<Rightarrow>
               if p_reports p \<ge> 5
               then (case update_isActive s2 playgroundId of
                       Inl e \<Rightarrow> Inl (e, s2)
                     | Inr s3 \<Rightarrow> Inr s3)
               else Inr s2)"

section \<open>Sequences of requests\<close>

datatype 't request =
  RequestBooking int "int option" "int option" "'t option" "'t option"
  | Cancel int int
  | Confirm int int
  | RateBooking int "int option" int
  | RatePlayground int "int option" int
  | ReportVenue int int string

text \<open>
  The database after a request. The three booking handlers fail before their first
  write, so an error of theirs leaves the database they found; the rating and report
  handlers leave what \<open>db_after\<close> gives.
\<close>

fun handle :: "('t::linorder) db \<Rightarrow> 't request \<Rightarrow> 't db" where
  "handle s (RequestBooking userId playgroundId date timeStart timeEnd) =
     (case bookings_post s userId playgroundId date timeStart timeEnd of
        Inl _ \<Rightarrow> s | Inr (_, s') \<Rightarrow> s')"
| "handle s (Cancel userId bookingId) =
     (case bookings_patch_cancel s userId bookingId of Inl _ \<Rightarrow> s | Inr s' \<Rightarrow> s')"
| "handle s (Confirm userId bookingId) =
     (case bookings_patch_confirm s userId bookingId of Inl _ \<Rightarrow> s | Inr s' \<Rightarrow> s')"
| "handle s (RateBooking urlId rating bookingId) =
     db_after (bookings_patch_rating s urlId rating bookingId)"
| "handle s (RatePlayground urlId rating bookingId) =
     db_after (playgrounds_patch_rating s urlId rating bookingId)"
| "handle s (ReportVenue userId playgroundId reason) =
     db_after (playgrounds_post_report s userId playgroundId reason)"

definition run :: "('t::linorder) db \<Rightarrow> 't request list \<Rightarrow> 't db" where
  "run s rs = foldl handle s rs"

section \<open>Example databases\<close>

text \<open>
  One playground, id 1, owned by user 1, with the number of reports given; the bookings
  given, and 2 as the next booking id. Times are \<open>HH:MM\<close> strings, and the server is in
  strict mode.
\<close>

definition ex_playground :: "int \<Rightarrow> playground" where
  "ex_playground n = \<lparr>p_id = 1, p_userId = Some 1, p_reports = n, p_rating = 0\<rparr>"

definition ex_booking :: "string \<Rightarrow> string \<Rightarrow> status \<Rightarrow> string booking" where
  "ex_booking ts te st =
     \<lparr>b_id = 1, b_playgroundId = 1, b_userId = 2, b_date = 0, b_timeStart = ts, b_timeEnd = te,
      b_status = st, b_rated = False, b_rating = None\<rparr>"

definition ex_db :: "int \<Rightarrow> string booking list \<Rightarrow> string db" where
  "ex_db n bs =
     \<lparr>playgrounds = [ex_playground n], bookings = bs, playground_reports = [],
      bookings_auto_increment = 2, sql_strict = True\<rparr>"

text \<open>
  Two playgrounds, 1 and 2, both owned by user 1, and three bookings of user 2:
  booking 1 on playground 1, rated 5; booking 2 on playground 1 and booking 3 on
  playground 2, not rated. The stored averages are those of the bookings: 5 and 0.
\<close>

definition rating_booking :: "int \<Rightarrow> int \<Rightarrow> bool \<Rightarrow> int option \<Rightarrow> string booking" where
  "rating_booking i pg rd r =
     \<lparr>b_id = i, b_playgroundId = pg, b_userId = 2, b_date = 0, b_timeStart = ''09:00'',
      b_timeEnd = ''10:00'', b_status = Confirmed, b_rated = rd, b_rating = r\<rparr>"

definition rating_db :: "string db" where
  "rating_db =
     \<lparr>playgrounds =
        [\<lparr>p_id = 1, p_userId = Some 1, p_reports = 0, p_rating = 5\<rparr>,
         \<lparr>p_id = 2, p_userId = Some 1, p_reports = 0, p_rating = 0\<rparr>],
      bookings =
        [rating_booking 1 1 True (Some 5), rating_booking 2 1 False None,
         rating_booking 3 2 False None],
      playground_reports = [],
      bookings_auto_increment = 4,
      sql_strict = True\<rparr>"

text \<open>
  The reports of the users given against playground 1, and the database that holds them
  with the count of the playground equal to their number.
\<close>

definition ex_reports :: "int list \<Rightarrow> report list" where
  "ex_reports us = map (\<lambda>u. \<lparr>r_playgroundId = 1, r_userId = u, r_reason = ''spam''\<rparr>) us"

definition report_db :: "int list \<Rightarrow> string db" where
  "report_db us =
     \<lparr>playgrounds = [\<lparr>p_id = 1, p_userId = Some 1, p_reports = int (length us), p_rating = 0\<rparr>],
      bookings = [], playground_reports = ex_reports us, bookings_auto_increment = 1,
      sql_strict = True\<rparr>"

section \<open>What a request can change\<close>

text \<open>
  A property of a function on the rows of \<^verbatim>\<open>bookings\<close>, used to describe the effect of
  any request: it keeps the id of a booking and never turns the rated flag off.
\<close>

definition keeps_rated :: "('t booking \<Rightarrow> 't booking) \<Rightarrow> bool" where
  "keeps_rated g \<longleftrightarrow> (\<forall>b. b_id (g b) = b_id b \<and> (b_rated b \<longrightarrow> b_rated (g b)))"

section \<open>Facts about the queries\<close>

lemma existing_bookings_nonempty:
  "existing_bookings s pg d ts te \<noteq> [] \<longleftrightarrow>
     (\<exists>b\<in>set (bookings s). b_playgroundId b = pg \<and> b_date b = d \<and> b_status b \<noteq> Cancelled
        \<and> slot_taken b ts te)"
  by (auto simp: existing_bookings_def filter_empty_conv)

lemma slot_taken_well_formed:
  "b_timeStart b < b_timeEnd b \<Longrightarrow> ts < te \<Longrightarrow>
   slot_taken b ts te \<longleftrightarrow> b_timeStart b < te \<and> ts < b_timeEnd b"
  unfolding slot_taken_def by auto

lemma select_playground_Cons:
  assumes "select_playground s pg = p # ps"
  shows "p \<in> set (playgrounds s) \<and> p_id p = pg"
proof -
  have "p \<in> set (select_playground s pg)" using assms by simp
  then show ?thesis by (simp add: select_playground_def)
qed

lemma select_playground_empty:
  "select_playground s pg = [] \<longleftrightarrow> (\<forall>p\<in>set (playgrounds s). p_id p \<noteq> pg)"
  by (auto simp: select_playground_def filter_empty_conv)

lemma not_owner_first:
  assumes "\<forall>p\<in>set (playgrounds s). p_id p = pg \<longrightarrow> p_userId p \<noteq> Some u"
  shows "\<not> (case select_playground s pg of [] \<Rightarrow> False | p # _ \<Rightarrow> p_userId p = Some u)"
  using assms by (auto split: list.splits dest: select_playground_Cons)

lemma bookings_post_success_iff:
  "(\<exists>b s'. bookings_post s u (Some pg) (Some d) (Some ts) (Some te) = Inr (b, s'))
     \<longleftrightarrow> pg \<noteq> 0
         \<and> (case select_playground s pg of [] \<Rightarrow> False | p # _ \<Rightarrow> p_userId p \<noteq> Some u)
         \<and> existing_bookings s pg d ts te = []"
  by (auto simp: bookings_post_def falsy_num_def Let_def split: list.splits)

lemma bookings_post_missing_playground:
  assumes "select_playground s pg = []" and "pg \<noteq> 0"
    and "existing_bookings s pg d ts te = []"
  shows "bookings_post s u (Some pg) (Some d) (Some ts) (Some te) = Inl StorageError"
  using assms by (simp add: bookings_post_def falsy_num_def Let_def)

lemma filter_status_update:
  "filter (\<lambda>b. b_id b = k \<and> b_userId b = u)
     (map (\<lambda>b. if b_id b = k then b\<lparr>b_status := st\<rparr> else b) xs) =
   map (\<lambda>b. b\<lparr>b_status := st\<rparr>) (filter (\<lambda>b. b_id b = k \<and> b_userId b = u) xs)"
  by (induction xs) auto

lemma update_status_sets:
  "\<forall>b\<in>set (bookings (update_status s k st)). b_id b = k \<longrightarrow> b_status b = st"
proof (intro ballI impI)
  fix b assume mem: "b \<in> set (bookings (update_status s k st))" and k: "b_id b = k"
  from mem have "b \<in> (\<lambda>x. if b_id x = k then x\<lparr>b_status := st\<rparr> else x) ` set (bookings s)"
    unfolding update_status_def by simp
  then obtain x where b: "b = (if b_id x = k then x\<lparr>b_status := st\<rparr> else x)"
    by (rule imageE)
  show "b_status b = st"
  proof (cases "b_id x = k")
    case True
    with b show ?thesis by simp
  next
    case False
    with b have "b = x" by simp
    with k False show ?thesis by simp
  qed
qed

lemma cancel_rows_Nil:
  assumes "filter (\<lambda>b. b_id b = k \<and> b_userId b = u) (bookings s) = []"
  shows "bookings_patch_cancel s u k = Inl NotFound"
  using assms by (simp add: bookings_patch_cancel_def)

lemma cancel_rows_Cons:
  assumes "filter (\<lambda>b. b_id b = k \<and> b_userId b = u) (bookings s) = b # bs"
  shows "bookings_patch_cancel s u k =
           (if b_status b \<noteq> Pending then Inl InvalidState else Inr (update_status s k Cancelled))"
  using assms by (simp add: bookings_patch_cancel_def)

lemma cancel_twice:
  assumes ok: "bookings_patch_cancel s u k = Inr s'"
  shows "bookings_patch_cancel s' u k = Inl InvalidState"
proof (cases "filter (\<lambda>b. b_id b = k \<and> b_userId b = u) (bookings s)")
  case Nil
  then show ?thesis using ok cancel_rows_Nil [of k u s] by simp
next
  case (Cons b bs)
  with ok have s': "s' = update_status s k Cancelled"
    using cancel_rows_Cons [OF Cons] by (simp split: if_splits)
  have "filter (\<lambda>b. b_id b = k \<and> b_userId b = u) (bookings s') =
          b\<lparr>b_status := Cancelled\<rparr> # map (\<lambda>b. b\<lparr>b_status := Cancelled\<rparr>) bs"
    unfolding s' update_status_def using Cons by (simp add: filter_status_update)
  from cancel_rows_Cons [OF this] show ?thesis by simp
qed


lemma set_select_with_owner:
  "set (select_with_owner s k) =
     {(b, p_userId p) | b p. b \<in> set (bookings s) \<and> b_id b = k
                           \<and> p \<in> set (playgrounds s) \<and> p_id p = b_playgroundId b}"
  by (auto simp: select_with_owner_def select_playground_def)

lemma select_with_owner_Cons:
  assumes "select_with_owner s k = (b, ownerId) # rows"
  shows "\<exists>p\<in>set (playgrounds s). b \<in> set (bookings s) \<and> b_id b = k \<and> p_id p = b_playgroundId b
          \<and> ownerId = p_userId p"
proof -
  have "(b, ownerId) \<in> set (select_with_owner s k)" using assms by simp
  then show ?thesis unfolding set_select_with_owner by auto
qed

lemma select_with_owner_empty:
  "select_with_owner s k = [] \<longleftrightarrow>
     \<not> (\<exists>b\<in>set (bookings s). \<exists>p\<in>set (playgrounds s). b_id b = k \<and> p_id p = b_playgroundId b)"
proof -
  have "select_with_owner s k = [] \<longleftrightarrow> set (select_with_owner s k) = {}" by simp
  then show ?thesis unfolding set_select_with_owner by blast
qed

lemma confirm_rows_Nil:
  "select_with_owner s k = [] \<Longrightarrow> bookings_patch_confirm s u k = Inl Unauthorized"
  by (simp add: bookings_patch_confirm_def)

lemma confirm_rows_Cons:
  "select_with_owner s k = (b, ownerId) # rows \<Longrightarrow>
   bookings_patch_confirm s u k =
     (if ownerId \<noteq> Some u then Inl Unauthorized else Inr (update_status s k Confirmed))"
  by (simp add: bookings_patch_confirm_def)


section \<open>Facts about the column conversions\<close>

lemma floor_rat_numeral_div:
  "\<lfloor>numeral a / numeral b :: rat\<rfloor> = numeral a div numeral b"
  using floor_divide_of_int_eq [of "numeral a" "numeral b", where ?'a = rat] by simp

lemma floor_rat_one_div:
  "\<lfloor>1 / numeral b :: rat\<rfloor> = 1 div numeral b"
  using floor_divide_of_int_eq [of 1 "numeral b", where ?'a = rat] by simp

lemmas decimal_eval = store_int_def store_decimal_3_1_def decimal_round_def round_half_away_def
  sql_avg_def Let_def floor_rat_numeral_div floor_rat_one_div

lemma round_half_away_bound:
  assumes "\<bar>x\<bar> \<le> of_int m"
  shows "\<bar>round_half_away x\<bar> \<le> m"
proof (cases "0 \<le> x")
  case True
  with assms have "x + 1 / 2 < of_int (m + 1)" by simp
  then have "\<lfloor>x + 1 / 2\<rfloor> < m + 1" by (simp only: floor_less_iff)
  moreover from True have "0 \<le> \<lfloor>x + 1 / 2\<rfloor>" by simp
  ultimately show ?thesis using True by (simp add: round_half_away_def)
next
  case False
  with assms have "- x + 1 / 2 < of_int (m + 1)" by simp
  then have "\<lfloor>- x + 1 / 2\<rfloor> < m + 1" by (simp only: floor_less_iff)
  moreover from False have "0 \<le> \<lfloor>- x + 1 / 2\<rfloor>" by simp
  ultimately show ?thesis using False by (simp add: round_half_away_def)
qed

lemma decimal_round_bound:
  assumes "\<bar>x\<bar> \<le> of_int m"
  shows "\<bar>decimal_round d x\<bar> \<le> of_int m"
proof -
  have "\<bar>x * 10 ^ d\<bar> = \<bar>x\<bar> * 10 ^ d" by (simp add: abs_mult)
  also have "\<dots> \<le> of_int m * 10 ^ d" using assms by (simp add: mult_right_mono)
  finally have "\<bar>x * 10 ^ d\<bar> \<le> of_int (m * 10 ^ d)" by simp
  then have "\<bar>round_half_away (x * 10 ^ d)\<bar> \<le> m * 10 ^ d" by (rule round_half_away_bound)
  then have "(of_int \<bar>round_half_away (x * 10 ^ d)\<bar> :: rat) \<le> of_int (m * 10 ^ d)"
    by (simp only: of_int_le_iff)
  then have "\<bar>of_int (round_half_away (x * 10 ^ d)) :: rat\<bar> \<le> of_int m * 10 ^ d" by simp
  then have "\<bar>of_int (round_half_away (x * 10 ^ d)) :: rat\<bar> / 10 ^ d \<le> of_int m"
    by (simp add: pos_divide_le_eq)
  then show ?thesis by (simp add: decimal_round_def)
qed

lemma sum_list_bound:
  "\<forall>r\<in>set rs. \<bar>r\<bar> \<le> (m::int) \<Longrightarrow> \<bar>sum_list rs\<bar> \<le> m * int (length rs)"
  by (induction rs) (auto simp: algebra_simps)

lemma mean_bound:
  assumes "rs \<noteq> []" and "\<forall>r\<in>set rs. \<bar>r\<bar> \<le> (m::int)"
  shows "\<bar>of_int (sum_list rs) / of_int (int (length rs)) :: rat\<bar> \<le> of_int m"
proof -
  have n: "0 < int (length rs)" using assms(1) by simp
  have "\<bar>sum_list rs\<bar> \<le> m * int (length rs)" using assms(2) by (rule sum_list_bound)
  then have "(of_int \<bar>sum_list rs\<bar> :: rat) \<le> of_int (m * int (length rs))"
    by (simp only: of_int_le_iff)
  then have "\<bar>of_int (sum_list rs) :: rat\<bar> \<le> of_int m * of_int (int (length rs))" by simp
  then have "\<bar>of_int (sum_list rs) :: rat\<bar> / of_int (int (length rs)) \<le> of_int m"
    using n by (simp add: pos_divide_le_eq)
  then show ?thesis using n by simp
qed

lemma avg_fits:
  assumes "\<forall>r\<in>set rs. \<bar>r\<bar> \<le> 99"
  shows "store_decimal_3_1 strict (case sql_avg rs of None \<Rightarrow> 0 | Some a \<Rightarrow> a)
           = Inr (decimal_round 1 (case sql_avg rs of None \<Rightarrow> 0 | Some a \<Rightarrow> a))"
proof -
  let ?a = "case sql_avg rs of None \<Rightarrow> 0 | Some a \<Rightarrow> a"
  have a: "\<bar>?a\<bar> \<le> of_int 99"
  proof (cases "rs = []")
    case True
    then show ?thesis by (simp add: sql_avg_def)
  next
    case False
    from mean_bound [OF False assms]
    have "\<bar>decimal_round 4 (of_int (sum_list rs) / of_int (int (length rs)))\<bar> \<le> of_int 99"
      by (rule decimal_round_bound)
    with False show ?thesis by (simp add: sql_avg_def)
  qed
  then have "\<bar>decimal_round 1 ?a\<bar> \<le> of_int 99" by (rule decimal_round_bound)
  then have "\<bar>decimal_round 1 ?a\<bar> \<le> 99" by simp
  then have "- (999 / 10) \<le> decimal_round 1 ?a \<and> decimal_round 1 ?a \<le> 999 / 10" by linarith
  then show ?thesis by (simp add: store_decimal_3_1_def Let_def)
qed

lemma store_int_fits:
  assumes "\<bar>r\<bar> \<le> 99"
  shows "store_int strict r = Inr r"
proof -
  from assms have "- 2147483648 \<le> r \<and> r \<le> 2147483647" by linarith
  then show ?thesis by (simp add: store_int_def)
qed

section \<open>Facts about the rating statements\<close>

lemma set_rated_ratings:
  "x \<in> set (rated_ratings s v) \<longleftrightarrow>
     (\<exists>b\<in>set (bookings s). b_playgroundId b = v \<and> b_rated b \<and> b_rating b = Some x)"
  by (force simp: rated_ratings_def image_iff)

lemma avgRating_bookings:
  "bookings s = bookings s' \<Longrightarrow> avgRating s v = avgRating s' v"
  by (simp add: avgRating_def rated_ratings_def)

lemma rated_ratings_within:
  assumes "\<forall>b\<in>set (bookings s). b_playgroundId b = v \<and> b_rated b
             \<longrightarrow> (\<forall>r. b_rating b = Some r \<longrightarrow> \<bar>r\<bar> \<le> 99)"
  shows "\<forall>x\<in>set (rated_ratings s v). \<bar>x\<bar> \<le> 99"
proof
  fix x assume "x \<in> set (rated_ratings s v)"
  then obtain b where "b \<in> set (bookings s)" "b_playgroundId b = v" "b_rated b"
    "b_rating b = Some x"
    unfolding set_rated_ratings by blast
  with assms show "\<bar>x\<bar> \<le> 99" by blast
qed

lemma rated_ratings_within_write:
  assumes new: "\<forall>r. rating = Some r \<longrightarrow> \<bar>r\<bar> \<le> 99"
    and old: "\<forall>b\<in>set (bookings s). b_playgroundId b = v \<and> b_rated b
             \<longrightarrow> (\<forall>r. b_rating b = Some r \<longrightarrow> \<bar>r\<bar> \<le> 99)"
  shows "\<forall>x\<in>set (rated_ratings (write_booking_rating s rating k) v). \<bar>x\<bar> \<le> 99"
proof
  fix x assume "x \<in> set (rated_ratings (write_booking_rating s rating k) v)"
  then obtain b' where b': "b' \<in> set (bookings (write_booking_rating s rating k))"
    and p: "b_playgroundId b' = v" "b_rated b'" "b_rating b' = Some x"
    unfolding set_rated_ratings by blast
  from b' have "b' \<in> (\<lambda>b. if b_id b = k then b\<lparr>b_rated := True, b_rating := rating\<rparr> else b)
                       ` set (bookings s)"
    unfolding write_booking_rating_def by simp
  then obtain b where b: "b \<in> set (bookings s)"
    and eq: "b' = (if b_id b = k then b\<lparr>b_rated := True, b_rating := rating\<rparr> else b)"
    by (rule imageE)
  show "\<bar>x\<bar> \<le> 99"
  proof (cases "b_id b = k")
    case True
    with eq p(3) have "rating = Some x" by simp
    with new show ?thesis by blast
  next
    case False
    with eq have "b' = b" by simp
    with p b old show ?thesis by blast
  qed
qed

lemma update_booking_rating_fits:
  assumes "\<forall>r. rating = Some r \<longrightarrow> \<bar>r\<bar> \<le> 99"
  shows "update_booking_rating s rating k = Inr (write_booking_rating s rating k)"
proof (cases rating)
  case None
  then show ?thesis by (simp add: update_booking_rating_def)
next
  case (Some r)
  with assms have "store_int (sql_strict s) r = Inr r" by (simp add: store_int_fits)
  with Some show ?thesis by (simp add: update_booking_rating_def)
qed

lemma update_playground_rating_fits:
  assumes "\<forall>x\<in>set (rated_ratings s v). \<bar>x\<bar> \<le> 99"
  shows "update_playground_rating s' (avgRating s v) v
           = Inr (write_playground_rating s' (decimal_round 1 (avgRating s v)) v)"
  using avg_fits [OF assms, of "sql_strict s'"]
  by (simp add: update_playground_rating_def avgRating_def)

lemma bookings_patch_rating_fits:
  assumes new: "\<forall>r. rating = Some r \<longrightarrow> \<bar>r\<bar> \<le> 99"
    and old: "\<forall>b\<in>set (bookings s). b_playgroundId b = v \<and> b_rated b
             \<longrightarrow> (\<forall>r. b_rating b = Some r \<longrightarrow> \<bar>r\<bar> \<le> 99)"
  shows "bookings_patch_rating s v rating k =
           Inr (write_playground_rating (write_booking_rating s rating k)
                  (decimal_round 1 (avgRating (write_booking_rating s rating k) v)) v)"
proof -
  let ?s1 = "write_booking_rating s rating k"
  have 1: "update_booking_rating s rating k = Inr ?s1"
    using new by (rule update_booking_rating_fits)
  have "\<forall>x\<in>set (rated_ratings ?s1 v). \<bar>x\<bar> \<le> 99"
    using new old by (rule rated_ratings_within_write)
  then have 2: "update_playground_rating ?s1 (avgRating ?s1 v) v
           = Inr (write_playground_rating ?s1 (decimal_round 1 (avgRating ?s1 v)) v)"
    by (rule update_playground_rating_fits)
  show ?thesis by (simp only: bookings_patch_rating_def 1 2 sum.case)
qed

lemma playgrounds_patch_rating_fits:
  assumes new: "\<forall>r. rating = Some r \<longrightarrow> \<bar>r\<bar> \<le> 99"
    and old: "\<forall>b\<in>set (bookings s). b_playgroundId b = v \<and> b_rated b
             \<longrightarrow> (\<forall>r. b_rating b = Some r \<longrightarrow> \<bar>r\<bar> \<le> 99)"
  shows "playgrounds_patch_rating s v rating k =
           Inr (write_booking_rating
                  (write_playground_rating s (decimal_round 1 (avgRating s v)) v) rating k)"
proof -
  let ?s1 = "write_playground_rating s (decimal_round 1 (avgRating s v)) v"
  have "\<forall>x\<in>set (rated_ratings s v). \<bar>x\<bar> \<le> 99"
    using old by (rule rated_ratings_within)
  then have 1: "update_playground_rating s (avgRating s v) v = Inr ?s1"
    by (rule update_playground_rating_fits)
  have 2: "update_booking_rating ?s1 rating k = Inr (write_booking_rating ?s1 rating k)"
    using new by (rule update_booking_rating_fits)
  show ?thesis by (simp only: playgrounds_patch_rating_def 1 2 sum.case)
qed

text \<open>What the two statements leave, whatever they answer.\<close>

lemma update_booking_rating_shape:
  assumes "update_booking_rating s rating k = Inr s1"
  shows "s1 = s \<or> (\<exists>v. s1 = write_booking_rating s v k)"
  using assms
  by (auto simp: update_booking_rating_def split: option.splits sum.splits if_splits)

lemma update_playground_rating_shape:
  assumes "update_playground_rating s x v = Inr s1"
  shows "s1 = s \<or> (\<exists>y. s1 = write_playground_rating s y v)"
  using assms
  by (auto simp: update_playground_rating_def split: sum.splits if_splits)

lemma update_booking_rating_leaves:
  assumes "update_booking_rating s rating k = Inr s1"
  shows "(bookings s1 = bookings s
          \<or> (\<exists>v. bookings s1 =
                map (\<lambda>b. if b_id b = k then b\<lparr>b_rated := True, b_rating := v\<rparr> else b) (bookings s)))
       \<and> playgrounds s1 = playgrounds s
       \<and> playground_reports s1 = playground_reports s
       \<and> bookings_auto_increment s1 = bookings_auto_increment s"
proof -
  from update_booking_rating_shape [OF assms]
  show ?thesis
  proof
    assume "s1 = s"
    then show ?thesis by simp
  next
    assume "\<exists>v. s1 = write_booking_rating s v k"
    then obtain v where "s1 = write_booking_rating s v k" ..
    then have "bookings s1 =
                map (\<lambda>b. if b_id b = k then b\<lparr>b_rated := True, b_rating := v\<rparr> else b) (bookings s)"
      and "playgrounds s1 = playgrounds s \<and> playground_reports s1 = playground_reports s
           \<and> bookings_auto_increment s1 = bookings_auto_increment s"
      by (simp_all add: write_booking_rating_def)
    then show ?thesis by blast
  qed
qed

lemma update_playground_rating_leaves:
  assumes "update_playground_rating s x v = Inr s1"
  shows "(playgrounds s1 = playgrounds s
          \<or> (\<exists>y. playgrounds s1 =
                map (\<lambda>p. if p_id p = v then p\<lparr>p_rating := y\<rparr> else p) (playgrounds s)))
       \<and> bookings s1 = bookings s
       \<and> playground_reports s1 = playground_reports s
       \<and> bookings_auto_increment s1 = bookings_auto_increment s"
proof -
  from update_playground_rating_shape [OF assms]
  show ?thesis
  proof
    assume "s1 = s"
    then show ?thesis by simp
  next
    assume "\<exists>y. s1 = write_playground_rating s y v"
    then obtain y where "s1 = write_playground_rating s y v" ..
    then have "playgrounds s1 =
                map (\<lambda>p. if p_id p = v then p\<lparr>p_rating := y\<rparr> else p) (playgrounds s)"
      and "bookings s1 = bookings s \<and> playground_reports s1 = playground_reports s
           \<and> bookings_auto_increment s1 = bookings_auto_increment s"
      by (simp_all add: write_playground_rating_def)
    then show ?thesis by blast
  qed
qed

lemma bookings_patch_rating_leaves:
  fixes s :: "'t db" and urlId :: int and rating :: "int option" and k :: int
  defines "s' \<equiv> db_after (bookings_patch_rating s urlId rating k)"
  shows "(bookings s' = bookings s
          \<or> (\<exists>v. bookings s' =
                map (\<lambda>b. if b_id b = k then b\<lparr>b_rated := True, b_rating := v\<rparr> else b) (bookings s)))
       \<and> (playgrounds s' = playgrounds s
          \<or> (\<exists>y. playgrounds s' =
                map (\<lambda>p. if p_id p = urlId then p\<lparr>p_rating := y\<rparr> else p) (playgrounds s)))
       \<and> playground_reports s' = playground_reports s
       \<and> bookings_auto_increment s' = bookings_auto_increment s"
proof (cases "update_booking_rating s rating k")
  case (Inl e)
  then have "s' = s" by (simp add: s'_def bookings_patch_rating_def db_after_def)
  then show ?thesis by simp
next
  case (Inr s1)
  note 1 = update_booking_rating_leaves [OF Inr]
  show ?thesis
  proof (cases "update_playground_rating s1 (avgRating s1 urlId) urlId")
    case (Inl e)
    with Inr have "s' = s1" by (simp add: s'_def bookings_patch_rating_def db_after_def)
    with 1 show ?thesis by simp
  next
    case (Inr s2)
    note 2 = update_playground_rating_leaves [OF Inr]
    from \<open>update_booking_rating s rating k = Inr s1\<close> Inr
    have "s' = s2" by (simp add: s'_def bookings_patch_rating_def db_after_def)
    with 1 2 show ?thesis by simp
  qed
qed

lemma playgrounds_patch_rating_leaves:
  fixes s :: "'t db" and urlId :: int and rating :: "int option" and k :: int
  defines "s' \<equiv> db_after (playgrounds_patch_rating s urlId rating k)"
  shows "bookings s' = bookings s
          \<or> (\<exists>v. bookings s' =
                map (\<lambda>b. if b_id b = k then b\<lparr>b_rated := True, b_rating := v\<rparr> else b) (bookings s))"
proof (cases "update_playground_rating s (avgRating s urlId) urlId")
  case (Inl e)
  then have "s' = s" by (simp add: s'_def playgrounds_patch_rating_def db_after_def)
  then show ?thesis by simp
next
  case (Inr s1)
  note 1 = update_playground_rating_leaves [OF Inr]
  show ?thesis
  proof (cases "update_booking_rating s1 rating k")
    case (Inl e)
    with Inr have "s' = s1" by (simp add: s'_def playgrounds_patch_rating_def db_after_def)
    with 1 show ?thesis by simp
  next
    case (Inr s2)
    note 2 = update_booking_rating_leaves [OF Inr]
    from \<open>update_playground_rating s (avgRating s urlId) urlId = Inr s1\<close> Inr
    have "s' = s2" by (simp add: s'_def playgrounds_patch_rating_def db_after_def)
    with 1 2 show ?thesis by simp
  qed
qed

lemma playgrounds_post_report_leaves:
  "bookings (db_after (playgrounds_post_report s u v reason)) = bookings s"
  by (simp add: playgrounds_post_report_def db_after_def update_isActive_def Let_def
      split: list.splits)

section \<open>Facts about sequences of requests\<close>

lemma cancel_result:
  "bookings_patch_cancel s u k = Inr s' \<Longrightarrow> s' = update_status s k Cancelled"
  by (simp add: bookings_patch_cancel_def split: list.splits if_splits)

lemma confirm_result:
  "bookings_patch_confirm s u k = Inr s' \<Longrightarrow> s' = update_status s k Confirmed"
  by (simp add: bookings_patch_confirm_def split: list.splits if_splits prod.splits)

lemma post_result:
  "bookings_post s u pg d ts te = Inr (b, s') \<Longrightarrow>
   s' = s\<lparr>bookings := bookings s @ [b], bookings_auto_increment := bookings_auto_increment s + 1\<rparr>"
  by (auto simp: bookings_post_def Let_def split: if_splits)

lemma keeps_rated_id: "keeps_rated id"
  by (simp add: keeps_rated_def)

lemma keeps_rated_status:
  "keeps_rated (\<lambda>b::'a booking. if b_id b = k then b\<lparr>b_status := st\<rparr> else b)"
  by (simp add: keeps_rated_def)

lemma keeps_rated_rating:
  "keeps_rated (\<lambda>b::'a booking. if b_id b = k then b\<lparr>b_rated := True, b_rating := v\<rparr> else b)"
  by (simp add: keeps_rated_def)

lemma keeps_rated_comp: "keeps_rated f \<Longrightarrow> keeps_rated g \<Longrightarrow> keeps_rated (g \<circ> f)"
  unfolding keeps_rated_def comp_def by metis

lemma rated_effect_same:
  "bookings s' = bookings s \<Longrightarrow> \<exists>g bs. bookings s' = map g (bookings s) @ bs \<and> keeps_rated g"
  using keeps_rated_id by (intro exI [of _ id] exI [of _ "[]"]) simp

lemma rated_effect_rating:
  assumes "bookings s' = bookings s
          \<or> (\<exists>v. bookings s' =
                map (\<lambda>b. if b_id b = k then b\<lparr>b_rated := True, b_rating := v\<rparr> else b) (bookings s))"
  shows "\<exists>g bs. bookings s' = map g (bookings s) @ bs \<and> keeps_rated g"
  using assms
proof
  assume "bookings s' = bookings s"
  then show ?thesis by (rule rated_effect_same)
next
  assume "\<exists>v. bookings s' =
                map (\<lambda>b. if b_id b = k then b\<lparr>b_rated := True, b_rating := v\<rparr> else b) (bookings s)"
  then obtain v where "bookings s' =
      map (\<lambda>b. if b_id b = k then b\<lparr>b_rated := True, b_rating := v\<rparr> else b) (bookings s) @ []"
    by auto
  with keeps_rated_rating [of k v] show ?thesis by blast
qed

lemma rated_effect_status:
  assumes "s' = update_status s k st"
  shows "\<exists>g bs. bookings s' = map g (bookings s) @ bs \<and> keeps_rated g"
proof -
  from assms have "bookings s' = map (\<lambda>b. if b_id b = k then b\<lparr>b_status := st\<rparr> else b) (bookings s) @ []"
    by (simp add: update_status_def)
  with keeps_rated_status [of k st] show ?thesis by blast
qed

lemma handle_effect:
  "\<exists>g bs. bookings (handle s r) = map g (bookings s) @ bs \<and> keeps_rated g"
proof (cases r)
  case (RequestBooking u pg d ts te)
  show ?thesis
  proof (cases "bookings_post s u pg d ts te")
    case (Inl e)
    with RequestBooking have "bookings (handle s r) = bookings s" by simp
    then show ?thesis by (rule rated_effect_same)
  next
    case (Inr res)
    obtain b s' where res: "res = (b, s')" by (cases res)
    from Inr res RequestBooking have h: "handle s r = s'" by simp
    from post_result Inr res have
      "s' = s\<lparr>bookings := bookings s @ [b], bookings_auto_increment := bookings_auto_increment s + 1\<rparr>"
      by blast
    with h have "bookings (handle s r) = map id (bookings s) @ [b]" by simp
    with keeps_rated_id show ?thesis by blast
  qed
next
  case (Cancel u k)
  show ?thesis
  proof (cases "bookings_patch_cancel s u k")
    case (Inl e)
    with Cancel have "bookings (handle s r) = bookings s" by simp
    then show ?thesis by (rule rated_effect_same)
  next
    case (Inr s')
    with Cancel have h: "handle s r = s'" by simp
    from cancel_result [OF Inr] h have "handle s r = update_status s k Cancelled" by simp
    then show ?thesis by (rule rated_effect_status)
  qed
next
  case (Confirm u k)
  show ?thesis
  proof (cases "bookings_patch_confirm s u k")
    case (Inl e)
    with Confirm have "bookings (handle s r) = bookings s" by simp
    then show ?thesis by (rule rated_effect_same)
  next
    case (Inr s')
    with Confirm have h: "handle s r = s'" by simp
    from confirm_result [OF Inr] h have "handle s r = update_status s k Confirmed" by simp
    then show ?thesis by (rule rated_effect_status)
  qed
next
  case (RateBooking urlId rating k)
  then have h: "handle s r = db_after (bookings_patch_rating s urlId rating k)" by simp
  from bookings_patch_rating_leaves [of s urlId rating k]
  have "bookings (handle s r) = bookings s
          \<or> (\<exists>v. bookings (handle s r) =
                map (\<lambda>b. if b_id b = k then b\<lparr>b_rated := True, b_rating := v\<rparr> else b) (bookings s))"
    unfolding h by (rule conjunct1)
  then show ?thesis by (rule rated_effect_rating)
next
  case (RatePlayground urlId rating k)
  then have h: "handle s r = db_after (playgrounds_patch_rating s urlId rating k)" by simp
  from playgrounds_patch_rating_leaves [of s urlId rating k]
  have "bookings (handle s r) = bookings s
          \<or> (\<exists>v. bookings (handle s r) =
                map (\<lambda>b. if b_id b = k then b\<lparr>b_rated := True, b_rating := v\<rparr> else b) (bookings s))"
    unfolding h .
  then show ?thesis by (rule rated_effect_rating)
next
  case (ReportVenue u v reason)
  then have "bookings (handle s r) = bookings s"
    by (simp add: playgrounds_post_report_leaves)
  then show ?thesis by (rule rated_effect_same)
qed

lemma run_effect:
  "\<exists>g bs. bookings (run s rs) = map g (bookings s) @ bs \<and> keeps_rated g"
proof (induction rs arbitrary: s)
  case Nil
  have "bookings (run s []) = bookings s" by (simp add: run_def)
  then show ?case by (rule rated_effect_same)
next
  case (Cons r rs)
  from handle_effect [of s r] obtain g1 bs1 where
    1: "bookings (handle s r) = map g1 (bookings s) @ bs1" "keeps_rated g1" by blast
  from Cons.IH [of "handle s r"] obtain g2 bs2 where
    2: "bookings (run (handle s r) rs) = map g2 (bookings (handle s r)) @ bs2" "keeps_rated g2"
    by blast
  have r: "run s (r # rs) = run (handle s r) rs" by (simp add: run_def)
  have "bookings (run s (r # rs)) = map (g2 \<circ> g1) (bookings s) @ (map g2 bs1 @ bs2)
     \<and> keeps_rated (g2 \<circ> g1)"
    using 1(1) 2(1) keeps_rated_comp [OF 1(2) 2(2)] unfolding r by simp
  then show ?case by blast
qed

lemma run_rated:
  assumes "i < length (bookings s)"
  shows "i < length (bookings (run s rs))
       \<and> b_id (bookings (run s rs) ! i) = b_id (bookings s ! i)
       \<and> (b_rated (bookings s ! i) \<longrightarrow> b_rated (bookings (run s rs) ! i))"
proof -
  from run_effect [of s rs] obtain g bs where
    g: "bookings (run s rs) = map g (bookings s) @ bs" "keeps_rated g" by blast
  from g(1) assms have n: "bookings (run s rs) ! i = g (bookings s ! i)"
    by (simp add: nth_append)
  from g(1) assms have l: "i < length (bookings (run s rs))" by simp
  from g(2) have "b_id (g (bookings s ! i)) = b_id (bookings s ! i)"
    and "b_rated (bookings s ! i) \<longrightarrow> b_rated (g (bookings s ! i))"
    unfolding keeps_rated_def by blast+
  with n l show ?thesis by simp
qed

lemmas rating_eval = bookings_patch_rating_def playgrounds_patch_rating_def
  update_booking_rating_def update_playground_rating_def write_booking_rating_def
  write_playground_rating_def avgRating_def rated_ratings_def select_playground_def
  rating_db_def rating_booking_def db_after_def decimal_eval


text \<open>
  The conversions at work. In strict mode a rating of 1000 is written to booking 1 and
  the average 1000 is then rejected by \<^verbatim>\<open>decimal(3,1)\<close>: the answer is 500 and the booking
  stays rated; with the mode off the average is stored as 99.9. A rating beyond 32 bits
  is rejected before anything is written, and is no error when no booking has the id.
  Ratings 5, 4 and 4 have the average 4.3333, stored as 4.3.
\<close>

lemma rating_out_of_range:
  "bookings_patch_rating rating_db 1 (Some 1000) 1 =
     Inl (StorageError,
          rating_db\<lparr>bookings :=
            [rating_booking 1 1 True (Some 1000), rating_booking 2 1 False None,
             rating_booking 3 2 False None]\<rparr>)
   \<and> bookings_patch_rating (rating_db\<lparr>sql_strict := False\<rparr>) 1 (Some 1000) 1 =
     Inr (rating_db\<lparr>sql_strict := False,
          bookings :=
            [rating_booking 1 1 True (Some 1000), rating_booking 2 1 False None,
             rating_booking 3 2 False None],
          playgrounds :=
            [\<lparr>p_id = 1, p_userId = Some 1, p_reports = 0, p_rating = 999 / 10\<rparr>,
             \<lparr>p_id = 2, p_userId = Some 1, p_reports = 0, p_rating = 0\<rparr>]\<rparr>)
   \<and> bookings_patch_rating rating_db 1 (Some 4294967296) 1 = Inl (StorageError, rating_db)
   \<and> bookings_patch_rating rating_db 1 (Some 4294967296) 99 = Inr rating_db"
  by (simp add: rating_eval)

lemma rating_rounding:
  "bookings_patch_rating
     (rating_db\<lparr>bookings := [rating_booking 1 1 True (Some 5), rating_booking 2 1 True (Some 4),
                              rating_booking 3 1 False None]\<rparr>) 1 (Some 4) 3 =
     Inr (rating_db\<lparr>bookings :=
            [rating_booking 1 1 True (Some 5), rating_booking 2 1 True (Some 4),
             rating_booking 3 1 True (Some 4)],
          playgrounds :=
            [\<lparr>p_id = 1, p_userId = Some 1, p_reports = 0, p_rating = 43 / 10\<rparr>,
             \<lparr>p_id = 2, p_userId = Some 1, p_reports = 0, p_rating = 0\<rparr>]\<rparr>)"
  by (simp add: rating_eval)


section \<open>The three clauses and the half-open test\<close>

text \<open>
  C2. For an existing booking and a request that both have start < end, the three
  clauses of the conflict query hold exactly when the half-open test
  \<open>a.start < b.end AND b.start < a.end\<close> of the specification does, with \<open>a\<close> the
  existing booking and \<open>b\<close> the request.
\<close>

theorem three_clauses_iff_half_open:
  fixes b :: "('t::linorder) booking"
  assumes "b_timeStart b < b_timeEnd b" and "timeStart < timeEnd"
  shows "slot_taken b timeStart timeEnd
           \<longleftrightarrow> spec_overlaps (b_timeStart b, b_timeEnd b) (timeStart, timeEnd)"
  using assms unfolding slot_taken_def spec_overlaps_def by auto

theorem three_clauses_iff_half_open_witness:
  "''09:30'' < ''10:30'' \<and> ''09:00'' < ''10:00'' \<and>
   slot_taken \<lparr>b_id = 1, b_playgroundId = 1, b_userId = 2, b_date = 0,
               b_timeStart = ''09:30'', b_timeEnd = ''10:30'', b_status = Pending,
               b_rated = False, b_rating = None\<rparr> ''09:00'' ''10:00'' \<and>
   spec_overlaps (''09:30'', ''10:30'') (''09:00'', ''10:00'')"
  using three_clauses_iff_half_open
    [of "\<lparr>b_id = 1, b_playgroundId = 1, b_userId = 2, b_date = 0,
          b_timeStart = ''09:30'', b_timeEnd = ''10:30'', b_status = Pending,
          b_rated = False, b_rating = None\<rparr>" "''09:00''" "''10:00''"]
  by (simp add: spec_overlaps_def)

section \<open>Requesting a booking\<close>

text \<open>
  C1. For a request with all four fields present, from a caller who does not
  own the playground, with start < end on the request and on every existing booking of
  the same playground and date that is not cancelled: \<open>bookings_post\<close> answers
  \<open>SlotConflict\<close> if and only if some existing booking of that playground and date,
  not cancelled, overlaps the requested interval under the half-open rule. Whenever the
  request succeeds, the booking created is the requested one with status pending,
  appended to the table.
\<close>

theorem slot_conflict_iff_overlap:
  fixes s :: "('t::linorder) db"
  assumes present: "pg \<noteq> 0"
    and not_owner: "\<forall>p\<in>set (playgrounds s). p_id p = pg \<longrightarrow> p_userId p \<noteq> Some userId"
    and req: "ts < te"
    and rows: "\<forall>b\<in>set (bookings s). b_playgroundId b = pg \<and> b_date b = d \<and> b_status b \<noteq> Cancelled
                 \<longrightarrow> b_timeStart b < b_timeEnd b"
  shows "(bookings_post s userId (Some pg) (Some d) (Some ts) (Some te) = Inl SlotConflict
            \<longleftrightarrow> (\<exists>b\<in>set (bookings s). b_playgroundId b = pg \<and> b_date b = d \<and> b_status b \<noteq> Cancelled
                   \<and> spec_overlaps (b_timeStart b, b_timeEnd b) (ts, te)))
       \<and> (\<forall>b s'. bookings_post s userId (Some pg) (Some d) (Some ts) (Some te) = Inr (b, s')
            \<longrightarrow> b_status b = Pending \<and> b = new_booking s pg userId d ts te
                \<and> bookings s' = bookings s @ [b])"
proof -
  have own: "\<not> (case select_playground s pg of [] \<Rightarrow> False | p # _ \<Rightarrow> p_userId p = Some userId)"
    using not_owner by (rule not_owner_first)
  have ex: "existing_bookings s pg d ts te \<noteq> [] \<longleftrightarrow>
      (\<exists>b\<in>set (bookings s). b_playgroundId b = pg \<and> b_date b = d \<and> b_status b \<noteq> Cancelled
                   \<and> spec_overlaps (b_timeStart b, b_timeEnd b) (ts, te))"
    unfolding existing_bookings_nonempty spec_overlaps_def
    using rows req slot_taken_well_formed by (metis fst_conv snd_conv)
  have conflict: "bookings_post s userId (Some pg) (Some d) (Some ts) (Some te) = Inl SlotConflict
      \<longleftrightarrow> existing_bookings s pg d ts te \<noteq> []"
    using present own by (simp add: bookings_post_def falsy_num_def Let_def)
  have created: "\<forall>b s'. bookings_post s userId (Some pg) (Some d) (Some ts) (Some te) = Inr (b, s')
            \<longrightarrow> b_status b = Pending \<and> b = new_booking s pg userId d ts te
                \<and> bookings s' = bookings s @ [b]"
    by (auto simp: bookings_post_def Let_def new_booking_def split: if_splits)
  show ?thesis using conflict ex created by blast
qed

text \<open>
  The two examples of the specification, for user 3 on the playground of user 1: the
  request (09:00, 10:00) against a pending (09:30, 10:30) is a conflict by the theorem;
  against a pending (10:00, 11:00) it is no conflict by the theorem, and evaluating the
  handler gives the new pending booking with id 2.
\<close>

theorem slot_conflict_iff_overlap_witness:
  "bookings_post (ex_db 0 [ex_booking ''09:30'' ''10:30'' Pending]) 3
     (Some 1) (Some 0) (Some ''09:00'') (Some ''10:00'') = Inl SlotConflict
   \<and> bookings_post (ex_db 0 [ex_booking ''10:00'' ''11:00'' Pending]) 3
       (Some 1) (Some 0) (Some ''09:00'') (Some ''10:00'') \<noteq> Inl SlotConflict
   \<and> bookings_post (ex_db 0 [ex_booking ''10:00'' ''11:00'' Pending]) 3
       (Some 1) (Some 0) (Some ''09:00'') (Some ''10:00'') =
     Inr (\<lparr>b_id = 2, b_playgroundId = 1, b_userId = 3, b_date = 0, b_timeStart = ''09:00'',
           b_timeEnd = ''10:00'', b_status = Pending, b_rated = False, b_rating = None\<rparr>,
          \<lparr>playgrounds = [ex_playground 0],
           bookings = [ex_booking ''10:00'' ''11:00'' Pending,
             \<lparr>b_id = 2, b_playgroundId = 1, b_userId = 3, b_date = 0, b_timeStart = ''09:00'',
               b_timeEnd = ''10:00'', b_status = Pending, b_rated = False, b_rating = None\<rparr>],
           playground_reports = [], bookings_auto_increment = 3,
           sql_strict = True\<rparr>)"
proof -
  let ?s1 = "ex_db 0 [ex_booking ''09:30'' ''10:30'' Pending]"
  let ?s2 = "ex_db 0 [ex_booking ''10:00'' ''11:00'' Pending]"
  have p: "(1::int) \<noteq> 0" by simp
  have t: "''09:00'' < ''10:00''" by simp
  have o1: "\<forall>p\<in>set (playgrounds ?s1). p_id p = 1 \<longrightarrow> p_userId p \<noteq> Some 3"
    by (simp add: ex_db_def ex_playground_def)
  have o2: "\<forall>p\<in>set (playgrounds ?s2). p_id p = 1 \<longrightarrow> p_userId p \<noteq> Some 3"
    by (simp add: ex_db_def ex_playground_def)
  have r1: "\<forall>b\<in>set (bookings ?s1). b_playgroundId b = 1 \<and> b_date b = 0 \<and> b_status b \<noteq> Cancelled
              \<longrightarrow> b_timeStart b < b_timeEnd b"
    by (simp add: ex_db_def ex_booking_def)
  have r2: "\<forall>b\<in>set (bookings ?s2). b_playgroundId b = 1 \<and> b_date b = 0 \<and> b_status b \<noteq> Cancelled
              \<longrightarrow> b_timeStart b < b_timeEnd b"
    by (simp add: ex_db_def ex_booking_def)
  have c1: "bookings_post ?s1 3 (Some 1) (Some 0) (Some ''09:00'') (Some ''10:00'') = Inl SlotConflict"
    using slot_conflict_iff_overlap [OF p o1 t r1]
    by (simp add: ex_db_def ex_booking_def spec_overlaps_def)
  have c2: "bookings_post ?s2 3 (Some 1) (Some 0) (Some ''09:00'') (Some ''10:00'') \<noteq> Inl SlotConflict"
    using slot_conflict_iff_overlap [OF p o2 t r2]
    by (simp add: ex_db_def ex_booking_def spec_overlaps_def)
  have c3: "bookings_post ?s2 3 (Some 1) (Some 0) (Some ''09:00'') (Some ''10:00'') =
     Inr (\<lparr>b_id = 2, b_playgroundId = 1, b_userId = 3, b_date = 0, b_timeStart = ''09:00'',
           b_timeEnd = ''10:00'', b_status = Pending, b_rated = False, b_rating = None\<rparr>,
          \<lparr>playgrounds = [ex_playground 0],
           bookings = [ex_booking ''10:00'' ''11:00'' Pending,
             \<lparr>b_id = 2, b_playgroundId = 1, b_userId = 3, b_date = 0, b_timeStart = ''09:00'',
               b_timeEnd = ''10:00'', b_status = Pending, b_rated = False, b_rating = None\<rparr>],
           playground_reports = [], bookings_auto_increment = 3,
           sql_strict = True\<rparr>)"
    by (simp add: bookings_post_def falsy_num_def Let_def ex_db_def ex_booking_def
        ex_playground_def select_playground_def existing_bookings_def slot_taken_def
        new_booking_def)
  show ?thesis using c1 c2 c3 by blast
qed

text \<open>
  Without the hypotheses the equivalence fails. The handler never compares start with
  end, and the second clause of the conflict query
  matches the pending (08:00, 10:00) against the request (11:00, 09:00), which the
  half-open test does not: the answer is \<open>SlotConflict\<close> with no overlapping booking.
  Such a request can itself be stored, and the third clause then matches the stored
  (12:00, 08:00) against the well-formed request (09:00, 11:00), again with no overlap.
  And the owner of the playground, asking for (09:00, 10:00) against the overlapping
  (09:30, 10:30), is answered \<open>SelfBookingNotAllowed\<close>, not \<open>SlotConflict\<close>.
\<close>

theorem slot_conflict_counterexample:
  "bookings_post (ex_db 0 [ex_booking ''08:00'' ''10:00'' Pending]) 3
     (Some 1) (Some 0) (Some ''11:00'') (Some ''09:00'') = Inl SlotConflict
   \<and> \<not> spec_overlaps (''08:00'', ''10:00'') (''11:00'', ''09:00'')
   \<and> bookings_post (ex_db 0 [ex_booking ''12:00'' ''08:00'' Pending]) 3
       (Some 1) (Some 0) (Some ''09:00'') (Some ''11:00'') = Inl SlotConflict
   \<and> \<not> spec_overlaps (''12:00'', ''08:00'') (''09:00'', ''11:00'')
   \<and> bookings_post (ex_db 0 [ex_booking ''09:30'' ''10:30'' Pending]) 1
       (Some 1) (Some 0) (Some ''09:00'') (Some ''10:00'') = Inl SelfBookingNotAllowed
   \<and> spec_overlaps (''09:30'', ''10:30'') (''09:00'', ''10:00'')"
  by (simp add: bookings_post_def falsy_num_def Let_def ex_db_def ex_booking_def
      ex_playground_def select_playground_def existing_bookings_def slot_taken_def
      spec_overlaps_def)

text \<open>
  C3. \<open>bookings_post\<close> answers \<open>ValidationError\<close> exactly when the
  playground id, the date, the start or the end of the request is missing. It compares
  start with end nowhere and reads no active flag or report count: a request with all
  fields
  succeeds exactly when the playground id is not 0, the first playground with the id
  exists and is not owned by the caller, and the conflict query returns no row. So a
  request succeeds only when the referenced playground exists; a request against a
  playground that does not exist creates no booking.
\<close>

theorem bookings_post_checks:
  fixes s :: "('t::linorder) db"
  shows "(bookings_post s u playgroundId date timeStart timeEnd = Inl ValidationError
            \<longleftrightarrow> falsy_num playgroundId \<or> date = None \<or> timeStart = None \<or> timeEnd = None)
       \<and> ((\<exists>b s'. bookings_post s u (Some pg) (Some d) (Some ts) (Some te) = Inr (b, s'))
            \<longleftrightarrow> pg \<noteq> 0
                \<and> (case select_playground s pg of [] \<Rightarrow> False | p # _ \<Rightarrow> p_userId p \<noteq> Some u)
                \<and> existing_bookings s pg d ts te = [])
       \<and> ((\<exists>b s'. bookings_post s u playgroundId date timeStart timeEnd = Inr (b, s'))
            \<longrightarrow> (\<exists>p\<in>set (playgrounds s). Some (p_id p) = playgroundId))"
proof -
  have v: "bookings_post s u playgroundId date timeStart timeEnd = Inl ValidationError
            \<longleftrightarrow> falsy_num playgroundId \<or> date = None \<or> timeStart = None \<or> timeEnd = None"
    by (simp add: bookings_post_def Let_def)
  have e: "(\<exists>b s'. bookings_post s u playgroundId date timeStart timeEnd = Inr (b, s'))
            \<longrightarrow> (\<exists>p\<in>set (playgrounds s). Some (p_id p) = playgroundId)"
  proof
    assume a: "\<exists>b s'. bookings_post s u playgroundId date timeStart timeEnd = Inr (b, s')"
    then have f: "\<not> falsy_num playgroundId"
      and ne: "select_playground s (the playgroundId) \<noteq> []"
      by (auto simp: bookings_post_def Let_def split: if_splits)
    from f obtain i where i: "playgroundId = Some i"
      by (cases playgroundId) (auto simp: falsy_num_def)
    from ne i obtain p where "p \<in> set (playgrounds s)" "p_id p = i"
      by (auto simp: select_playground_empty)
    with i show "\<exists>p\<in>set (playgrounds s). Some (p_id p) = playgroundId" by auto
  qed
  show ?thesis using v e bookings_post_success_iff [of s u pg d ts te] by blast
qed

text \<open>
  On playground 1 with five reports, the request of user 3 for (10:00, 09:00) succeeds
  by the theorem, and the same request without a date is a \<open>ValidationError\<close>.
\<close>

theorem bookings_post_checks_witness:
  "(\<exists>b s'. bookings_post (ex_db 5 []) 3 (Some 1) (Some 0) (Some ''10:00'') (Some ''09:00'')
              = Inr (b, s'))
   \<and> bookings_post (ex_db 5 []) 3 (Some 1) None (Some ''10:00'') (Some ''09:00'')
       = Inl ValidationError"
  using bookings_post_checks [of "ex_db 5 []" 3 "Some 1" None "Some ''10:00''"
      "Some ''09:00''" 1 0 "''10:00''" "''09:00''"]
  by (simp add: ex_db_def ex_playground_def select_playground_def existing_bookings_def
      falsy_num_def)

text \<open>
  The preconditions of the specification are not enforced: on playground 1, which has
  reached five reports, the request of user 3 with start 10:00 and end 09:00 is answered
  with the created booking, not with a \<open>ValidationError\<close>.
\<close>

theorem bookings_post_counterexample:
  "bookings_post (ex_db 5 []) 3 (Some 1) (Some 0) (Some ''10:00'') (Some ''09:00'') =
     Inr (\<lparr>b_id = 2, b_playgroundId = 1, b_userId = 3, b_date = 0, b_timeStart = ''10:00'',
           b_timeEnd = ''09:00'', b_status = Pending, b_rated = False, b_rating = None\<rparr>,
          \<lparr>playgrounds = [ex_playground 5],
           bookings = [\<lparr>b_id = 2, b_playgroundId = 1, b_userId = 3, b_date = 0,
               b_timeStart = ''10:00'', b_timeEnd = ''09:00'', b_status = Pending,
               b_rated = False, b_rating = None\<rparr>],
           playground_reports = [], bookings_auto_increment = 3,
           sql_strict = True\<rparr>)
   \<and> \<not> ''10:00'' < ''09:00'' \<and> p_reports (ex_playground 5) = 5"
  by (simp add: bookings_post_def falsy_num_def Let_def ex_db_def
      ex_playground_def select_playground_def existing_bookings_def slot_taken_def
      new_booking_def)

section \<open>Cancelling and confirming\<close>

text \<open>
  C6. \<open>bookings_patch_cancel\<close> answers \<open>NotFound\<close> when no booking has
  the id with the caller as its requester, which is the answer both for an id that no
  booking has and for a booking of another user; it never answers \<open>Unauthorized\<close>. When
  the caller's booking with the id is not pending it answers \<open>InvalidState\<close>; when it is
  pending, the handler succeeds and the booking is cancelled. A cancel that follows a
  successful cancel of the same booking by the same caller answers \<open>InvalidState\<close>.
\<close>

theorem cancel_by_requester:
  "((\<forall>b\<in>set (bookings s). \<not> (b_id b = k \<and> b_userId b = u))
      \<longrightarrow> bookings_patch_cancel s u k = Inl NotFound)
   \<and> ((\<exists>b\<in>set (bookings s). b_id b = k \<and> b_userId b = u)
       \<and> (\<forall>b\<in>set (bookings s). b_id b = k \<and> b_userId b = u \<longrightarrow> b_status b \<noteq> Pending)
      \<longrightarrow> bookings_patch_cancel s u k = Inl InvalidState)
   \<and> ((\<exists>b\<in>set (bookings s). b_id b = k \<and> b_userId b = u)
       \<and> (\<forall>b\<in>set (bookings s). b_id b = k \<and> b_userId b = u \<longrightarrow> b_status b = Pending)
      \<longrightarrow> bookings_patch_cancel s u k = Inr (update_status s k Cancelled)
          \<and> (\<forall>b\<in>set (bookings (update_status s k Cancelled)). b_id b = k \<longrightarrow> b_status b = Cancelled))
   \<and> (\<forall>s'. bookings_patch_cancel s u k = Inr s' \<longrightarrow> bookings_patch_cancel s' u k = Inl InvalidState)
   \<and> bookings_patch_cancel s u k \<noteq> Inl Unauthorized"
proof (cases "filter (\<lambda>b. b_id b = k \<and> b_userId b = u) (bookings s)")
  case Nil
  then have none: "\<forall>b\<in>set (bookings s). \<not> (b_id b = k \<and> b_userId b = u)"
    by (simp add: filter_empty_conv)
  have r: "bookings_patch_cancel s u k = Inl NotFound" using Nil by (rule cancel_rows_Nil)
  show ?thesis using none cancel_twice [of s u k] unfolding r by blast
next
  case (Cons b bs)
  then have "b \<in> set (filter (\<lambda>b. b_id b = k \<and> b_userId b = u) (bookings s))" by simp
  then have b: "b \<in> set (bookings s)" "b_id b = k" "b_userId b = u" by simp_all
  have r: "bookings_patch_cancel s u k =
           (if b_status b \<noteq> Pending then Inl InvalidState else Inr (update_status s k Cancelled))"
    using Cons by (rule cancel_rows_Cons)
  have upd: "\<forall>b\<in>set (bookings (update_status s k Cancelled)). b_id b = k \<longrightarrow> b_status b = Cancelled"
    by (rule update_status_sets)
  show ?thesis
  proof (cases "b_status b = Pending")
    case True
    with r have r': "bookings_patch_cancel s u k = Inr (update_status s k Cancelled)" by simp
    show ?thesis using b True upd cancel_twice [of s u k] unfolding r' by blast
  next
    case False
    with r have r': "bookings_patch_cancel s u k = Inl InvalidState" by simp
    show ?thesis using b False unfolding r' by blast
  qed
qed

text \<open>
  User 2 cancels the pending booking 1: the first cancel succeeds and leaves the booking
  cancelled, the second is an \<open>InvalidState\<close>; user 3 and the id 9 get \<open>NotFound\<close>.
\<close>

theorem cancel_by_requester_witness:
  "bookings_patch_cancel (ex_db 0 [ex_booking ''09:00'' ''10:00'' Pending]) 2 1
     = Inr (ex_db 0 [ex_booking ''09:00'' ''10:00'' Cancelled])
   \<and> bookings_patch_cancel (ex_db 0 [ex_booking ''09:00'' ''10:00'' Cancelled]) 2 1
       = Inl InvalidState
   \<and> bookings_patch_cancel (ex_db 0 [ex_booking ''09:00'' ''10:00'' Pending]) 3 1
       = Inl NotFound
   \<and> bookings_patch_cancel (ex_db 0 [ex_booking ''09:00'' ''10:00'' Pending]) 2 9
       = Inl NotFound"
  using cancel_by_requester [of "ex_db 0 [ex_booking ''09:00'' ''10:00'' Pending]" 1 2]
    cancel_by_requester [of "ex_db 0 [ex_booking ''09:00'' ''10:00'' Pending]" 1 3]
    cancel_by_requester [of "ex_db 0 [ex_booking ''09:00'' ''10:00'' Pending]" 9 2]
  by (simp add: ex_db_def ex_booking_def update_status_def)

text \<open>
  Booking 1 exists and belongs to user 2; user 3, who is not its requester, is answered
  \<open>NotFound\<close> and not \<open>Unauthorized\<close>.
\<close>

theorem cancel_counterexample:
  "b_id (ex_booking ''09:00'' ''10:00'' Pending) = 1
   \<and> b_userId (ex_booking ''09:00'' ''10:00'' Pending) = 2
   \<and> bookings_patch_cancel (ex_db 0 [ex_booking ''09:00'' ''10:00'' Pending]) 3 1
       = Inl NotFound
   \<and> bookings_patch_cancel (ex_db 0 [ex_booking ''09:00'' ''10:00'' Pending]) 3 1
       \<noteq> Inl Unauthorized"
  by (simp add: bookings_patch_cancel_def ex_db_def ex_booking_def)

text \<open>
  C5. \<open>bookings_patch_confirm\<close> answers \<open>Unauthorized\<close> when no booking
  has the id and when the caller is not the owner of the booking's playground; it never
  answers \<open>NotFound\<close>. When the caller owns the playground of the booking, it sets the
  status of the booking to confirmed, whatever the status was.
\<close>

theorem confirm_by_owner:
  "((\<forall>b\<in>set (bookings s). b_id b \<noteq> k) \<longrightarrow> bookings_patch_confirm s u k = Inl Unauthorized)
   \<and> ((\<forall>b\<in>set (bookings s). \<forall>p\<in>set (playgrounds s).
          b_id b = k \<and> p_id p = b_playgroundId b \<longrightarrow> p_userId p \<noteq> Some u)
      \<longrightarrow> bookings_patch_confirm s u k = Inl Unauthorized)
   \<and> ((\<exists>b\<in>set (bookings s). \<exists>p\<in>set (playgrounds s). b_id b = k \<and> p_id p = b_playgroundId b)
       \<and> (\<forall>b\<in>set (bookings s). \<forall>p\<in>set (playgrounds s).
          b_id b = k \<and> p_id p = b_playgroundId b \<longrightarrow> p_userId p = Some u)
      \<longrightarrow> bookings_patch_confirm s u k = Inr (update_status s k Confirmed)
          \<and> (\<forall>b\<in>set (bookings (update_status s k Confirmed)). b_id b = k \<longrightarrow> b_status b = Confirmed))
   \<and> bookings_patch_confirm s u k \<noteq> Inl NotFound"
proof (cases "select_with_owner s k")
  case Nil
  have r: "bookings_patch_confirm s u k = Inl Unauthorized" using Nil by (rule confirm_rows_Nil)
  have none: "\<not> (\<exists>b\<in>set (bookings s). \<exists>p\<in>set (playgrounds s). b_id b = k \<and> p_id p = b_playgroundId b)"
    using Nil by (simp add: select_with_owner_empty)
  show ?thesis using none unfolding r by blast
next
  case (Cons row rows)
  obtain b ownerId where row: "row = (b, ownerId)" by (cases row)
  from Cons row have rows: "select_with_owner s k = (b, ownerId) # rows" by simp
  from select_with_owner_Cons [OF rows] obtain p where
    p: "p \<in> set (playgrounds s)" "b \<in> set (bookings s)" "b_id b = k" "p_id p = b_playgroundId b"
       "ownerId = p_userId p" by blast
  have r: "bookings_patch_confirm s u k =
     (if ownerId \<noteq> Some u then Inl Unauthorized else Inr (update_status s k Confirmed))"
    using rows by (rule confirm_rows_Cons)
  have upd: "\<forall>b\<in>set (bookings (update_status s k Confirmed)). b_id b = k \<longrightarrow> b_status b = Confirmed"
    by (rule update_status_sets)
  show ?thesis
  proof (cases "ownerId = Some u")
    case True
    with r have r': "bookings_patch_confirm s u k = Inr (update_status s k Confirmed)" by simp
    show ?thesis using p True upd unfolding r' by blast
  next
    case False
    with r have r': "bookings_patch_confirm s u k = Inl Unauthorized" by simp
    show ?thesis using p False unfolding r' by blast
  qed
qed

text \<open>
  The owner, user 1, confirms booking 1 when it is cancelled, pending and confirmed; the
  requester, user 2, is \<open>Unauthorized\<close>.
\<close>

theorem confirm_by_owner_witness:
  "bookings_patch_confirm (ex_db 0 [ex_booking ''09:00'' ''10:00'' Cancelled]) 1 1
     = Inr (ex_db 0 [ex_booking ''09:00'' ''10:00'' Confirmed])
   \<and> bookings_patch_confirm (ex_db 0 [ex_booking ''09:00'' ''10:00'' Pending]) 1 1
     = Inr (ex_db 0 [ex_booking ''09:00'' ''10:00'' Confirmed])
   \<and> bookings_patch_confirm (ex_db 0 [ex_booking ''09:00'' ''10:00'' Confirmed]) 1 1
     = Inr (ex_db 0 [ex_booking ''09:00'' ''10:00'' Confirmed])
   \<and> bookings_patch_confirm (ex_db 0 [ex_booking ''09:00'' ''10:00'' Pending]) 2 1
     = Inl Unauthorized"
  using confirm_by_owner [of "ex_db 0 [ex_booking ''09:00'' ''10:00'' Cancelled]" 1 1]
    confirm_by_owner [of "ex_db 0 [ex_booking ''09:00'' ''10:00'' Pending]" 1 1]
    confirm_by_owner [of "ex_db 0 [ex_booking ''09:00'' ''10:00'' Confirmed]" 1 1]
    confirm_by_owner [of "ex_db 0 [ex_booking ''09:00'' ''10:00'' Pending]" 1 2]
  by (simp add: ex_db_def ex_booking_def ex_playground_def update_status_def)

text \<open>
  No booking has the id 9; the answer to the owner of the only playground is
  \<open>Unauthorized\<close> and not \<open>NotFound\<close>.
\<close>

theorem confirm_counterexample:
  "map b_id (bookings (ex_db 0 [ex_booking ''09:00'' ''10:00'' Pending])) = [1]
   \<and> bookings_patch_confirm (ex_db 0 [ex_booking ''09:00'' ''10:00'' Pending]) 1 9
       = Inl Unauthorized
   \<and> bookings_patch_confirm (ex_db 0 [ex_booking ''09:00'' ''10:00'' Pending]) 1 9
       \<noteq> Inl NotFound"
  by (simp add: bookings_patch_confirm_def select_with_owner_def select_playground_def
      ex_db_def ex_booking_def ex_playground_def)

text \<open>
  C4. The status of a booking is meant to move from pending to confirmed or to cancelled
  and then to stay. The handlers do not keep it so: user 2 books playground 1, the
  booking (id 2) is pending; user 2 cancels it, it is cancelled; the owner, user 1,
  confirms it, and the cancelled booking is confirmed. The cancel route guards on the
  pending status, the confirm route has no such guard.
\<close>

theorem confirm_after_cancel:
  "map b_status (bookings (run (ex_db 0 [])
      [RequestBooking 2 (Some 1) (Some 0) (Some ''09:00'') (Some ''10:00'')])) = [Pending]
   \<and> map b_status (bookings (run (ex_db 0 [])
      [RequestBooking 2 (Some 1) (Some 0) (Some ''09:00'') (Some ''10:00''), Cancel 2 2]))
      = [Cancelled]
   \<and> map b_status (bookings (run (ex_db 0 [])
      [RequestBooking 2 (Some 1) (Some 0) (Some ''09:00'') (Some ''10:00''), Cancel 2 2,
       Confirm 1 2])) = [Confirmed]"
  by (simp add: run_def bookings_post_def falsy_num_def Let_def ex_db_def ex_playground_def
      select_playground_def existing_bookings_def new_booking_def bookings_patch_cancel_def
      bookings_patch_confirm_def select_with_owner_def update_status_def)


section \<open>Rating\<close>

text \<open>
  C7. Neither rating route checks that the rating lies in 1..5, that a booking has the
  id, that it belongs to the caller or that it is not rated yet: the handlers take no
  caller and read no booking before they write. Whenever the rating given and the
  ratings of the rated bookings of the playground of the URL lie between -99 and 99, so
  that the columns hold the rating and the average, both handlers succeed, whatever the
  booking id, and every booking with the id is then rated with the value given, which
  overwrites an earlier rating. What holds of the rated flag is that it only goes from
  false to true: through any sequence of requests a row of the table keeps its place and
  its id, and a rated booking stays rated.
\<close>

theorem rating_unchecked:
  fixes s :: "'t db" and s0 :: "('u::linorder) db"
  shows "((\<forall>r. rating = Some r \<longrightarrow> \<bar>r\<bar> \<le> 99)
          \<and> (\<forall>b\<in>set (bookings s). b_playgroundId b = urlId \<and> b_rated b
                \<longrightarrow> (\<forall>r. b_rating b = Some r \<longrightarrow> \<bar>r\<bar> \<le> 99))
          \<longrightarrow> (\<exists>s'. bookings_patch_rating s urlId rating k = Inr s'
                  \<and> bookings s' =
                      map (\<lambda>b. if b_id b = k then b\<lparr>b_rated := True, b_rating := rating\<rparr> else b)
                          (bookings s))
              \<and> (\<exists>s'. playgrounds_patch_rating s urlId rating k = Inr s'
                  \<and> bookings s' =
                      map (\<lambda>b. if b_id b = k then b\<lparr>b_rated := True, b_rating := rating\<rparr> else b)
                          (bookings s)))
       \<and> (i < length (bookings s0)
            \<longrightarrow> i < length (bookings (run s0 rs))
                \<and> b_id (bookings (run s0 rs) ! i) = b_id (bookings s0 ! i)
                \<and> (b_rated (bookings s0 ! i) \<longrightarrow> b_rated (bookings (run s0 rs) ! i)))"
proof -
  let ?new = "\<forall>r. rating = Some r \<longrightarrow> \<bar>r\<bar> \<le> 99"
  let ?old = "\<forall>b\<in>set (bookings s). b_playgroundId b = urlId \<and> b_rated b
                \<longrightarrow> (\<forall>r. b_rating b = Some r \<longrightarrow> \<bar>r\<bar> \<le> 99)"
  let ?upd = "map (\<lambda>b. if b_id b = k then b\<lparr>b_rated := True, b_rating := rating\<rparr> else b) (bookings s)"
  have a: "?new \<and> ?old \<longrightarrow> (\<exists>s'. bookings_patch_rating s urlId rating k = Inr s' \<and> bookings s' = ?upd)"
  proof (intro impI, elim conjE)
    assume new: ?new and old: ?old
    have "bookings (write_playground_rating (write_booking_rating s rating k)
                  (decimal_round 1 (avgRating (write_booking_rating s rating k) urlId)) urlId) = ?upd"
      by (simp add: write_playground_rating_def write_booking_rating_def)
    with bookings_patch_rating_fits [OF new old, of k]
    show "\<exists>s'. bookings_patch_rating s urlId rating k = Inr s' \<and> bookings s' = ?upd" by blast
  qed
  have b: "?new \<and> ?old \<longrightarrow> (\<exists>s'. playgrounds_patch_rating s urlId rating k = Inr s' \<and> bookings s' = ?upd)"
  proof (intro impI, elim conjE)
    assume new: ?new and old: ?old
    have "bookings (write_booking_rating
                  (write_playground_rating s (decimal_round 1 (avgRating s urlId)) urlId) rating k) = ?upd"
      by (simp add: write_playground_rating_def write_booking_rating_def)
    with playgrounds_patch_rating_fits [OF new old, of k]
    show "\<exists>s'. playgrounds_patch_rating s urlId rating k = Inr s' \<and> bookings s' = ?upd" by blast
  qed
  have c: "i < length (bookings s0)
            \<longrightarrow> i < length (bookings (run s0 rs))
                \<and> b_id (bookings (run s0 rs) ! i) = b_id (bookings s0 ! i)
                \<and> (b_rated (bookings s0 ! i) \<longrightarrow> b_rated (bookings (run s0 rs) ! i))"
    using run_rated [of i s0 rs] by blast
  show ?thesis using a b c by blast
qed


text \<open>
  The already rated booking 1 is rated 9 through either route, and booking 1, first row
  of the table, is still rated after five further requests.
\<close>

theorem rating_unchecked_witness:
  "(\<exists>s'. bookings_patch_rating rating_db 1 (Some 9) 1 = Inr s'
       \<and> bookings s' = [rating_booking 1 1 True (Some 9), rating_booking 2 1 False None,
                         rating_booking 3 2 False None])
   \<and> (\<exists>s'. playgrounds_patch_rating rating_db 1 (Some 9) 1 = Inr s'
       \<and> bookings s' = [rating_booking 1 1 True (Some 9), rating_booking 2 1 False None,
                         rating_booking 3 2 False None])
   \<and> b_rated (bookings (run rating_db [RateBooking 1 (Some 9) 1, Cancel 2 1, Confirm 1 1,
         RatePlayground 1 None 1, RequestBooking 3 (Some 1) (Some 0) (Some ''11:00'') (Some ''12:00'')])
       ! 0)"
proof -
  have new: "\<forall>r. Some (9::int) = Some r \<longrightarrow> \<bar>r\<bar> \<le> 99" by simp
  have old: "\<forall>b\<in>set (bookings rating_db). b_playgroundId b = 1 \<and> b_rated b
                \<longrightarrow> (\<forall>r. b_rating b = Some r \<longrightarrow> \<bar>r\<bar> \<le> 99)"
    by (simp add: rating_db_def rating_booking_def)
  have l: "0 < length (bookings rating_db)" and r: "b_rated (bookings rating_db ! 0)"
    by (simp_all add: rating_db_def rating_booking_def)
  have upd: "map (\<lambda>b. if b_id b = 1 then b\<lparr>b_rated := True, b_rating := Some 9\<rparr> else b)
               (bookings rating_db)
             = [rating_booking 1 1 True (Some 9), rating_booking 2 1 False None,
                rating_booking 3 2 False None]"
    by (simp add: rating_db_def rating_booking_def)
  note t = rating_unchecked [of "Some 9" rating_db 1 1 0 rating_db
        "[RateBooking 1 (Some 9) 1, Cancel 2 1, Confirm 1 1, RatePlayground 1 None 1,
          RequestBooking 3 (Some 1) (Some 0) (Some ''11:00'') (Some ''12:00'')]"]
  from t new old l r show ?thesis unfolding upd by blast
qed


text \<open>
  Booking 1 is rated 5 already; rating it 9, outside 1..5, succeeds and overwrites the
  rating. Rating the booking 99, which does not exist, succeeds and changes nothing.
\<close>

theorem rating_counterexample:
  "bookings_patch_rating rating_db 1 (Some 9) 1 =
     Inr (rating_db\<lparr>bookings :=
            [rating_booking 1 1 True (Some 9), rating_booking 2 1 False None,
             rating_booking 3 2 False None],
          playgrounds :=
            [\<lparr>p_id = 1, p_userId = Some 1, p_reports = 0, p_rating = 9\<rparr>,
             \<lparr>p_id = 2, p_userId = Some 1, p_reports = 0, p_rating = 0\<rparr>]\<rparr>)
   \<and> b_rated (rating_booking 1 1 True (Some 5))
   \<and> bookings_patch_rating rating_db 1 (Some 4) 99 = Inr rating_db"
  by (simp add: rating_eval)


text \<open>
  C8. After a rating the stored rating of the playground is meant to be the mean of its
  rated bookings, the new rating included. \<^verbatim>\<open>PATCH /api/playgrounds/:id/rating\<close> computes
  and stores the mean before it updates the booking: with booking 1 rated 5, rating
  booking 2 with 3 leaves the stored rating of playground 1 at 5, while the mean of its
  rated bookings is now 4. \<^verbatim>\<open>PATCH /api/bookings/:id/rating\<close>, which updates the booking
  first, stores 4 on the same request.
\<close>

theorem playgrounds_patch_rating_stale:
  "playgrounds_patch_rating rating_db 1 (Some 3) 2 =
     Inr (rating_db\<lparr>bookings :=
            [rating_booking 1 1 True (Some 5), rating_booking 2 1 True (Some 3),
             rating_booking 3 2 False None]\<rparr>)
   \<and> map p_rating (playgrounds rating_db) = [5, 0]
   \<and> avgRating (rating_db\<lparr>bookings :=
            [rating_booking 1 1 True (Some 5), rating_booking 2 1 True (Some 3),
             rating_booking 3 2 False None]\<rparr>) 1 = 4
   \<and> bookings_patch_rating rating_db 1 (Some 3) 2 =
     Inr (rating_db\<lparr>bookings :=
            [rating_booking 1 1 True (Some 5), rating_booking 2 1 True (Some 3),
             rating_booking 3 2 False None],
          playgrounds :=
            [\<lparr>p_id = 1, p_userId = Some 1, p_reports = 0, p_rating = 4\<rparr>,
             \<lparr>p_id = 2, p_userId = Some 1, p_reports = 0, p_rating = 0\<rparr>]\<rparr>)"
  by (simp add: rating_eval)


text \<open>
  C10. Whatever \<^verbatim>\<open>PATCH /api/bookings/:id/rating\<close> answers, the database it leaves
  differs from the one it found at most in the rated flag and the rating of the bookings
  with the id of the body and in the rating of the playgrounds with the id of the URL;
  no row of another playground changes, and nothing relates the booking to the
  playground of the URL. When the rating and the ratings of the rated bookings of the
  playground of the URL lie between -99 and 99, the handler succeeds, the bookings of
  the body are rated with the value given, and the playgrounds of the URL get the mean
  recomputed for the id of the URL, as the column stores it. So, in the example database,
  rating booking 3 of playground 2 with 3 through the URL of playground 1 leaves the
  stored rating of playground 2 at 0, while the mean of its rated bookings goes from 0
  to 3.
\<close>

theorem bookings_patch_rating_frame:
  "(let s' = db_after (bookings_patch_rating s urlId rating k)
    in (bookings s' = bookings s
          \<or> (\<exists>v. bookings s' =
                map (\<lambda>b. if b_id b = k then b\<lparr>b_rated := True, b_rating := v\<rparr> else b) (bookings s)))
       \<and> (playgrounds s' = playgrounds s
          \<or> (\<exists>y. playgrounds s' =
                map (\<lambda>p. if p_id p = urlId then p\<lparr>p_rating := y\<rparr> else p) (playgrounds s)))
       \<and> playground_reports s' = playground_reports s
       \<and> bookings_auto_increment s' = bookings_auto_increment s)
   \<and> ((\<forall>r. rating = Some r \<longrightarrow> \<bar>r\<bar> \<le> 99)
          \<and> (\<forall>b\<in>set (bookings s). b_playgroundId b = urlId \<and> b_rated b
                \<longrightarrow> (\<forall>r. b_rating b = Some r \<longrightarrow> \<bar>r\<bar> \<le> 99))
       \<longrightarrow> (\<exists>s'. bookings_patch_rating s urlId rating k = Inr s'
             \<and> bookings s' =
                 map (\<lambda>b. if b_id b = k then b\<lparr>b_rated := True, b_rating := rating\<rparr> else b)
                     (bookings s)
             \<and> playgrounds s' =
                 map (\<lambda>p. if p_id p = urlId
                           then p\<lparr>p_rating := decimal_round 1 (avgRating s' urlId)\<rparr> else p)
                     (playgrounds s)
             \<and> playground_reports s' = playground_reports s
             \<and> bookings_auto_increment s' = bookings_auto_increment s))
   \<and> bookings_patch_rating rating_db 1 (Some 3) 3 =
       Inr (rating_db\<lparr>bookings :=
              [rating_booking 1 1 True (Some 5), rating_booking 2 1 False None,
               rating_booking 3 2 True (Some 3)]\<rparr>)
   \<and> map b_playgroundId (bookings rating_db) = [1, 1, 2]
   \<and> map p_rating (playgrounds rating_db) = [5, 0]
   \<and> avgRating rating_db 2 = 0
   \<and> avgRating (rating_db\<lparr>bookings :=
              [rating_booking 1 1 True (Some 5), rating_booking 2 1 False None,
               rating_booking 3 2 True (Some 3)]\<rparr>) 2 = 3"
proof -
  let ?new = "\<forall>r. rating = Some r \<longrightarrow> \<bar>r\<bar> \<le> 99"
  let ?old = "\<forall>b\<in>set (bookings s). b_playgroundId b = urlId \<and> b_rated b
                \<longrightarrow> (\<forall>r. b_rating b = Some r \<longrightarrow> \<bar>r\<bar> \<le> 99)"
  let ?s1 = "write_booking_rating s rating k"
  let ?s' = "write_playground_rating ?s1 (decimal_round 1 (avgRating ?s1 urlId)) urlId"
  have a: "let s' = db_after (bookings_patch_rating s urlId rating k)
    in (bookings s' = bookings s
          \<or> (\<exists>v. bookings s' =
                map (\<lambda>b. if b_id b = k then b\<lparr>b_rated := True, b_rating := v\<rparr> else b) (bookings s)))
       \<and> (playgrounds s' = playgrounds s
          \<or> (\<exists>y. playgrounds s' =
                map (\<lambda>p. if p_id p = urlId then p\<lparr>p_rating := y\<rparr> else p) (playgrounds s)))
       \<and> playground_reports s' = playground_reports s
       \<and> bookings_auto_increment s' = bookings_auto_increment s"
    unfolding Let_def by (rule bookings_patch_rating_leaves)
  have bk: "bookings ?s' = bookings ?s1"
    by (simp add: write_playground_rating_def)
  have avg: "avgRating ?s' urlId = avgRating ?s1 urlId"
    using bk by (rule avgRating_bookings)
  have fr: "bookings ?s' =
                 map (\<lambda>b. if b_id b = k then b\<lparr>b_rated := True, b_rating := rating\<rparr> else b)
                     (bookings s)
             \<and> playgrounds ?s' =
                 map (\<lambda>p. if p_id p = urlId
                           then p\<lparr>p_rating := decimal_round 1 (avgRating ?s' urlId)\<rparr> else p)
                     (playgrounds s)
             \<and> playground_reports ?s' = playground_reports s
             \<and> bookings_auto_increment ?s' = bookings_auto_increment s"
    unfolding avg by (simp add: write_playground_rating_def write_booking_rating_def)
  have b: "?new \<and> ?old
       \<longrightarrow> (\<exists>s'. bookings_patch_rating s urlId rating k = Inr s'
             \<and> bookings s' =
                 map (\<lambda>b. if b_id b = k then b\<lparr>b_rated := True, b_rating := rating\<rparr> else b)
                     (bookings s)
             \<and> playgrounds s' =
                 map (\<lambda>p. if p_id p = urlId
                           then p\<lparr>p_rating := decimal_round 1 (avgRating s' urlId)\<rparr> else p)
                     (playgrounds s)
             \<and> playground_reports s' = playground_reports s
             \<and> bookings_auto_increment s' = bookings_auto_increment s)"
  proof (intro impI, elim conjE)
    assume new: ?new and old: ?old
    from bookings_patch_rating_fits [OF new old, of k]
    have r: "bookings_patch_rating s urlId rating k = Inr ?s'" .
    from r fr show "\<exists>s'. bookings_patch_rating s urlId rating k = Inr s'
             \<and> bookings s' =
                 map (\<lambda>b. if b_id b = k then b\<lparr>b_rated := True, b_rating := rating\<rparr> else b)
                     (bookings s)
             \<and> playgrounds s' =
                 map (\<lambda>p. if p_id p = urlId
                           then p\<lparr>p_rating := decimal_round 1 (avgRating s' urlId)\<rparr> else p)
                     (playgrounds s)
             \<and> playground_reports s' = playground_reports s
             \<and> bookings_auto_increment s' = bookings_auto_increment s"
      by (intro exI [of _ ?s'] conjI) simp_all
  qed
  have c: "bookings_patch_rating rating_db 1 (Some 3) 3 =
       Inr (rating_db\<lparr>bookings :=
              [rating_booking 1 1 True (Some 5), rating_booking 2 1 False None,
               rating_booking 3 2 True (Some 3)]\<rparr>)
   \<and> map b_playgroundId (bookings rating_db) = [1, 1, 2]
   \<and> map p_rating (playgrounds rating_db) = [5, 0]
   \<and> avgRating rating_db 2 = 0
   \<and> avgRating (rating_db\<lparr>bookings :=
              [rating_booking 1 1 True (Some 5), rating_booking 2 1 False None,
               rating_booking 3 2 True (Some 3)]\<rparr>) 2 = 3"
    by (simp add: rating_eval)
  show ?thesis by (rule conjI [OF a conjI [OF b c]])
qed

text \<open>
  Rating booking 1 of playground 1 through the URL of playground 2: the booking is
  updated, playground 2 gets the mean of its own bookings, 0, and the stored rating of
  playground 1 stays 5 while its mean is now 4.
\<close>

theorem bookings_patch_rating_frame_witness:
  "\<exists>s'. bookings_patch_rating rating_db 2 (Some 4) 1 = Inr s'
       \<and> bookings s' = [rating_booking 1 1 True (Some 4), rating_booking 2 1 False None,
                         rating_booking 3 2 False None]
       \<and> map p_rating (playgrounds s') = [5, 0]
       \<and> avgRating s' 1 = 4"
proof -
  have new: "\<forall>r. Some (4::int) = Some r \<longrightarrow> \<bar>r\<bar> \<le> 99" by simp
  have old: "\<forall>b\<in>set (bookings rating_db). b_playgroundId b = 2 \<and> b_rated b
                \<longrightarrow> (\<forall>r. b_rating b = Some r \<longrightarrow> \<bar>r\<bar> \<le> 99)"
    by (simp add: rating_db_def rating_booking_def)
  from bookings_patch_rating_frame [of rating_db 2 "Some 4" 1,
      THEN conjunct2, THEN conjunct1, rule_format, OF conjI [OF new old]]
  obtain s' where
    s': "bookings_patch_rating rating_db 2 (Some 4) 1 = Inr s'
       \<and> bookings s' = map (\<lambda>b. if b_id b = 1 then b\<lparr>b_rated := True, b_rating := Some 4\<rparr> else b)
                            (bookings rating_db)
       \<and> playgrounds s' =
           map (\<lambda>p. if p_id p = 2 then p\<lparr>p_rating := decimal_round 1 (avgRating s' 2)\<rparr> else p)
               (playgrounds rating_db)
       \<and> playground_reports s' = playground_reports rating_db
       \<and> bookings_auto_increment s' = bookings_auto_increment rating_db" ..
  from s' have r: "bookings_patch_rating rating_db 2 (Some 4) 1 = Inr s'" by (rule conjunct1)
  from s' have b: "bookings s' = map (\<lambda>b. if b_id b = 1 then b\<lparr>b_rated := True, b_rating := Some 4\<rparr> else b)
                            (bookings rating_db)"
    by (rule conjunct2 [THEN conjunct1])
  from s' have p: "playgrounds s' =
           map (\<lambda>p. if p_id p = 2 then p\<lparr>p_rating := decimal_round 1 (avgRating s' 2)\<rparr> else p)
               (playgrounds rating_db)"
    by (rule conjunct2 [THEN conjunct2, THEN conjunct1])
  have b': "bookings s' = [rating_booking 1 1 True (Some 4), rating_booking 2 1 False None,
                         rating_booking 3 2 False None]"
    using b by (simp add: rating_db_def rating_booking_def)
  have a1: "avgRating s' 1 = 4" and a2: "avgRating s' 2 = 0"
    using b' by (simp_all add: avgRating_def rated_ratings_def rating_booking_def decimal_eval)
  have p': "map p_rating (playgrounds s') = [5, 0]"
    using p a2 by (simp add: rating_db_def decimal_eval)
  from r b' p' a1 show ?thesis by (intro exI [of _ s'] conjI)
qed


section \<open>Reporting\<close>

text \<open>
  C9. The fifth report of a playground is meant to set its active flag to false. On the
  tables of the repository it does not: the report of user 14 on three reports succeeds,
  but the report of user 15 on four is inserted, the count becomes 5, and the statement
  that sets \<^verbatim>\<open>isActive\<close> fails, since \<^verbatim>\<open>playgrounds\<close> has no such column. The answer is
  500 with the report and the count written and no flag set, and so it is for every
  later report of a new user; a second report of user 15 is still a duplicate.
\<close>

theorem fifth_report_fails:
  "playgrounds_post_report (report_db [11, 12, 13]) 14 1 ''spam''
     = Inr (report_db [11, 12, 13, 14])
   \<and> playgrounds_post_report (report_db [11, 12, 13, 14]) 15 1 ''spam''
     = Inl (StorageError, report_db [11, 12, 13, 14, 15])
   \<and> map p_reports (playgrounds (report_db [11, 12, 13, 14, 15])) = [5]
   \<and> playgrounds_post_report (report_db [11, 12, 13, 14, 15]) 16 1 ''spam''
     = Inl (StorageError, report_db [11, 12, 13, 14, 15, 16])
   \<and> playgrounds_post_report (report_db [11, 12, 13, 14, 15]) 15 1 ''spam''
     = Inl (DuplicateReport, report_db [11, 12, 13, 14, 15])"
  by (simp add: playgrounds_post_report_def update_isActive_def select_playground_def Let_def
      report_db_def ex_reports_def)

end
